theory Spec2Isabelle
  imports Main "HOL-Library.Sublist"
begin

section \<open>Error codes\<close>

text \<open>
  The exit codes of \<^verbatim>\<open>parse.py\<close>. \<^verbatim>\<open>error_exit\<close> prints a message and leaves the
  process with the code; the model returns the code as the left injection of a sum.
  A Python exception nobody catches (reading \<^verbatim>\<open>pos\<close> of a \<^verbatim>\<open>Block\<close>, indexing an empty
  string, a missing dictionary key, exhausted recursion) ends the interpreter with
  status 1; these are the \<open>Uncaught_\<close> values.
\<close>

datatype error =
    ERR_MISSING_PARAM | ERR_OPEN_INPUT | ERR_OPEN_OUTPUT
  | ERR_LEXICAL | ERR_SYNTACTIC
  | ERR_MISSING_MAIN | ERR_UNDEFINED_VAR | ERR_ARITY | ERR_VAR_COLLISION | ERR_SEMANTIC_OTHER
  | ERR_INTERNAL
  | Uncaught_AttributeError | Uncaught_IndexError | Uncaught_KeyError | Uncaught_RecursionError

fun exit_code :: "error \<Rightarrow> nat" where
  "exit_code ERR_MISSING_PARAM = 10"
| "exit_code ERR_OPEN_INPUT = 11"
| "exit_code ERR_OPEN_OUTPUT = 12"
| "exit_code ERR_LEXICAL = 21"
| "exit_code ERR_SYNTACTIC = 22"
| "exit_code ERR_MISSING_MAIN = 31"
| "exit_code ERR_UNDEFINED_VAR = 32"
| "exit_code ERR_ARITY = 33"
| "exit_code ERR_VAR_COLLISION = 34"
| "exit_code ERR_SEMANTIC_OTHER = 35"
| "exit_code ERR_INTERNAL = 99"
| "exit_code Uncaught_AttributeError = 1"
| "exit_code Uncaught_IndexError = 1"
| "exit_code Uncaught_KeyError = 1"
| "exit_code Uncaught_RecursionError = 1"

section \<open>Characters\<close>

text \<open>
  A Python \<^verbatim>\<open>str\<close> is a sequence of code points. The model takes the source text as a
  \<^typ>\<open>string\<close> whose every \<^typ>\<open>char\<close> is one code point below 256, so \<^const>\<open>length\<close>
  and positions count what Python counts. The character classes below are the ones
  Python's \<^verbatim>\<open>re\<close> and \<^verbatim>\<open>str\<close> methods use, restricted to that range.
\<close>

abbreviation apostrophe :: char where "apostrophe \<equiv> CHR 0x27"
abbreviation backslash :: char where "backslash \<equiv> CHR 0x5C"
abbreviation dquote :: char where "dquote \<equiv> CHR 0x22"
abbreviation newline :: char where "newline \<equiv> CHR 0x0A"

definition isspace :: "char \<Rightarrow> bool" where
  "isspace c \<longleftrightarrow> c \<in> {CHR 0x09, CHR 0x0A, CHR 0x0B, CHR 0x0C, CHR 0x0D,
                     CHR 0x1C, CHR 0x1D, CHR 0x1E, CHR 0x1F, CHR 0x20, CHR 0x85, CHR 0xA0}"

definition isdigit :: "char \<Rightarrow> bool" where
  "isdigit c \<longleftrightarrow> c \<in> set ''0123456789''"

definition ascii_upper :: "char \<Rightarrow> bool" where
  "ascii_upper c \<longleftrightarrow> c \<in> set ''ABCDEFGHIJKLMNOPQRSTUVWXYZ''"

definition ascii_lower :: "char \<Rightarrow> bool" where
  "ascii_lower c \<longleftrightarrow> c \<in> set ''abcdefghijklmnopqrstuvwxyz''"

definition ident_start :: "char \<Rightarrow> bool" where
  "ident_start c \<longleftrightarrow> ascii_lower c \<or> ascii_upper c \<or> c = CHR ''_''"

definition ident_char :: "char \<Rightarrow> bool" where
  "ident_char c \<longleftrightarrow> ident_start c \<or> isdigit c"

text \<open>\<^verbatim>\<open>str.isupper\<close> and \<^verbatim>\<open>str.islower\<close> of a one-character string.\<close>

definition isupper :: "char \<Rightarrow> bool" where
  "isupper c \<longleftrightarrow> ascii_upper c \<or>
     (0xC0 \<le> (of_char c :: nat) \<and> (of_char c :: nat) \<le> 0xDE \<and> c \<noteq> CHR 0xD7)"

definition islower :: "char \<Rightarrow> bool" where
  "islower c \<longleftrightarrow> ascii_lower c \<or> c \<in> {CHR 0xAA, CHR 0xB5, CHR 0xBA} \<or>
     (0xDF \<le> (of_char c :: nat) \<and> c \<noteq> CHR 0xF7)"

section \<open>Tokens and the lexer\<close>

datatype token_type =
    WHITESPACE | COMMENT | ASSIGN | NUMBER | STRING | IDENT | COLON
  | LBRACKET | RBRACKET | LBRACE | RBRACE | LPAREN | RPAREN | PIPE | DOT | OTHER

record token =
  tok_type :: token_type
  tok_value :: string
  tok_pos :: nat

definition Token :: "token_type \<Rightarrow> string \<Rightarrow> nat \<Rightarrow> token" where
  "Token ty v p = \<lparr>tok_type = ty, tok_value = v, tok_pos = p\<rparr>"

subsection \<open>String literals\<close>

text \<open>
  \<^verbatim>\<open>process_string_literal\<close>: the loop over \<^verbatim>\<open>content = literal[1:-1]\<close>, with the
  result built up in an accumulator as the source does.
\<close>

fun process_content :: "string \<Rightarrow> string \<Rightarrow> error + string" where
  "process_content [] result = Inr result"
| "process_content (c # cs) result =
     (if c = backslash then
        (case cs of
           [] \<Rightarrow> Inl ERR_LEXICAL
         | esc_char # rest \<Rightarrow>
             if esc_char = apostrophe then process_content rest (result @ [apostrophe])
             else if esc_char = CHR ''n'' then process_content rest (result @ [newline])
             else if esc_char = backslash then process_content rest (result @ [backslash])
             else Inl ERR_LEXICAL)
      else if (of_char c :: nat) \<le> 31 then Inl ERR_LEXICAL
      else process_content cs (result @ [c]))"

definition process_string_literal :: "string \<Rightarrow> error + string" where
  "process_string_literal literal = process_content (butlast (tl literal)) []"

subsection \<open>The token patterns\<close>

text \<open>
  Each pattern of \<^verbatim>\<open>token_specification\<close> is a function from the text at the current
  position to the length of its match, if it matches there.
  \<^verbatim>\<open>\s+\<close>, \<^verbatim>\<open>\d+\<close> and the identifier tail are greedy runs; \<^verbatim>\<open>[+-]?\d+\<close> fails when no
  digit follows the sign; the body of a comment or string, \<^verbatim>\<open>(?:\\.|[^q\\])*q\<close>, reads
  a backslash together with the character after it and ends at the first quote it
  meets outside such a pair (the alternatives exclude one another, so backtracking
  finds no other match).
\<close>

definition match_run :: "(char \<Rightarrow> bool) \<Rightarrow> string \<Rightarrow> nat option" where
  "match_run P s = (let n = length (takeWhile P s) in if 0 < n then Some n else None)"

fun match_quoted_body :: "char \<Rightarrow> string \<Rightarrow> nat option" where
  "match_quoted_body q [] = None"
| "match_quoted_body q (c # cs) =
     (if c = backslash then
        (case cs of
           [] \<Rightarrow> None
         | d # ds \<Rightarrow> map_option (\<lambda>n. n + 2) (match_quoted_body q ds))
      else if c = q then Some 1
      else map_option Suc (match_quoted_body q cs))"

definition match_quoted :: "char \<Rightarrow> string \<Rightarrow> nat option" where
  "match_quoted q s =
     (case s of [] \<Rightarrow> None
      | c # cs \<Rightarrow> if c = q then map_option Suc (match_quoted_body q cs) else None)"

definition match_number :: "string \<Rightarrow> nat option" where
  "match_number s =
     (case s of [] \<Rightarrow> None
      | c # cs \<Rightarrow>
          if c = CHR ''+'' \<or> c = CHR ''-'' then map_option Suc (match_run isdigit cs)
          else match_run isdigit s)"

definition match_ident :: "string \<Rightarrow> nat option" where
  "match_ident s =
     (case s of [] \<Rightarrow> None
      | c # cs \<Rightarrow> if ident_start c then Some (Suc (length (takeWhile ident_char cs))) else None)"

definition match_text :: "string \<Rightarrow> string \<Rightarrow> nat option" where
  "match_text lit s = (if prefix lit s then Some (length lit) else None)"

definition match_any :: "string \<Rightarrow> nat option" where
  "match_any s = (if s = [] then None else Some 1)"

definition token_specification :: "(token_type \<times> (string \<Rightarrow> nat option)) list" where
  "token_specification =
     [(WHITESPACE, match_run isspace),
      (COMMENT, match_quoted dquote),
      (ASSIGN, match_text '':=''),
      (NUMBER, match_number),
      (STRING, match_quoted apostrophe),
      (IDENT, match_ident),
      (COLON, match_text '':''),
      (LBRACKET, match_text ''[''),
      (RBRACKET, match_text '']''),
      (LBRACE, match_text ''{''),
      (RBRACE, match_text ''}''),
      (LPAREN, match_text ''(''),
      (RPAREN, match_text '')''),
      (PIPE, match_text ''|''),
      (DOT, match_text ''.''),
      (OTHER, match_any)]"

text \<open>The alternation takes the first pattern that matches, in the order of the table.\<close>

fun first_match :: "(token_type \<times> (string \<Rightarrow> nat option)) list \<Rightarrow> string \<Rightarrow> (token_type \<times> nat) option" where
  "first_match [] s = None"
| "first_match ((ty, m) # alts) s =
     (case m s of Some n \<Rightarrow> Some (ty, n) | None \<Rightarrow> first_match alts s)"

text \<open>\<^verbatim>\<open>master_pattern.match(code, pos)\<close>: the group that matched and \<^verbatim>\<open>match.end()\<close>.\<close>

definition master_pattern_match :: "string \<Rightarrow> nat \<Rightarrow> (token_type \<times> nat) option" where
  "master_pattern_match code pos =
     map_option (\<lambda>(ty, n). (ty, pos + n)) (first_match token_specification (drop pos code))"

lemma match_run_pos: "match_run P s = Some n \<Longrightarrow> 0 < n"
  by (auto simp: match_run_def Let_def split: if_splits)

lemma match_quoted_pos: "match_quoted q s = Some n \<Longrightarrow> 0 < n"
  by (auto simp: match_quoted_def split: list.splits if_splits)

lemma match_number_pos: "match_number s = Some n \<Longrightarrow> 0 < n"
  by (auto simp: match_number_def split: list.splits if_splits dest: match_run_pos)

lemma match_ident_pos: "match_ident s = Some n \<Longrightarrow> 0 < n"
  by (auto simp: match_ident_def split: list.splits if_splits)

lemma match_text_pos: "lit \<noteq> [] \<Longrightarrow> match_text lit s = Some n \<Longrightarrow> 0 < n"
  by (auto simp: match_text_def split: if_splits)

lemma match_any_pos: "match_any s = Some n \<Longrightarrow> 0 < n"
  by (auto simp: match_any_def split: if_splits)

lemma first_match_pos: "first_match token_specification s = Some (ty, n) \<Longrightarrow> 0 < n"
  by (auto simp: token_specification_def split: option.splits
      dest: match_run_pos match_quoted_pos match_number_pos match_ident_pos match_any_pos
            match_text_pos [rotated])

lemma master_pattern_match_end: "master_pattern_match code pos = Some (ty, e) \<Longrightarrow> pos < e"
  by (auto simp: master_pattern_match_def dest: first_match_pos)

text \<open>
  \<^verbatim>\<open>Lexer.tokenize\<close>: the loop \<^verbatim>\<open>while pos < len(self.code)\<close>, with \<^verbatim>\<open>self.tokens\<close>
  as accumulator. Every match is at least one character long, which is the
  termination argument.
\<close>

function tokenize_loop :: "string \<Rightarrow> nat \<Rightarrow> token list \<Rightarrow> error + token list" where
  "tokenize_loop code pos tokens =
     (if pos < length code then
        (case master_pattern_match code pos of
           None \<Rightarrow> Inl ERR_LEXICAL
         | Some (ty, e) \<Rightarrow>
             (if ty = WHITESPACE then tokenize_loop code e tokens
              else if ty = COMMENT then
                tokenize_loop code e (tokens @ [Token COMMENT (take (e - pos) (drop pos code)) pos])
              else if ty = STRING then
                (case process_string_literal (take (e - pos) (drop pos code)) of
                   Inl err \<Rightarrow> Inl err
                 | Inr processed_value \<Rightarrow>
                     tokenize_loop code e (tokens @ [Token STRING processed_value pos]))
              else if ty = OTHER then Inl ERR_LEXICAL
              else tokenize_loop code e (tokens @ [Token ty (take (e - pos) (drop pos code)) pos])))
      else Inr tokens)"
  by pat_completeness auto
termination
  by (relation "measure (\<lambda>(code, pos, tokens). length code - pos)")
     (auto dest: master_pattern_match_end)

declare tokenize_loop.simps [simp del]

definition tokenize :: "string \<Rightarrow> error + token list" where
  "tokenize code = tokenize_loop code 0 []"

section \<open>The abstract syntax tree\<close>

record parameter =
  param_name :: string
  param_order :: nat

text \<open>
  An expression is a \<^verbatim>\<open>Var\<close>, a \<^verbatim>\<open>Literal\<close>, a \<^verbatim>\<open>Block\<close> or a \<^verbatim>\<open>Send\<close>. The fields of
  \<^verbatim>\<open>Var\<close> are name and position; of \<^verbatim>\<open>Literal\<close>, literal class, value and position; of
  \<^verbatim>\<open>Send\<close>, selector, target, arguments and position. An \<^verbatim>\<open>Assignment\<close> holds the target
  variable (a \<^verbatim>\<open>Var\<close>: name and position), the expression and the order.
\<close>

datatype expr =
    Var string nat
  | Literal string string nat
  | BlockExpr block
  | Send string expr "expr list" nat
and block = Block (block_parameters: "parameter list") (block_assigns: "assignment list")
and assignment = Assignment (var_name: string) (var_pos: nat) (assign_expr: expr) (assign_order: nat)

text \<open>Reading the attribute \<^verbatim>\<open>pos\<close>: a \<^verbatim>\<open>Block\<close> object has none.\<close>

fun pos_of :: "expr \<Rightarrow> nat option" where
  "pos_of (Var name pos) = Some pos"
| "pos_of (Literal literal_class v pos) = Some pos"
| "pos_of (BlockExpr b) = None"
| "pos_of (Send selector target args pos) = Some pos"

record methoddef =
  method_selector :: string
  method_block :: block

record classdef =
  class_name :: string
  class_parent :: string
  class_methods :: "methoddef list"

record program =
  program_classes :: "classdef list"
  program_description :: "string option"

section \<open>The parser\<close>

text \<open>
  The parser object: the token list, the index of the current token and the position
  just after the last consumed token. Every parsing method takes the parser state and
  returns the new one beside its result. The recursive descent is defined by
  recursion on a fuel argument that bounds the depth of calls; \<open>None\<close> is an
  exhausted bound, \<open>Some (Inl e)\<close> an exit with code \<open>e\<close>.
\<close>

record parser =
  p_tokens :: "token list"
  p_pos :: nat
  p_last_token_end :: nat

type_synonym 'a parse_result = "(error + 'a \<times> parser) option"

definition ret :: "'a \<Rightarrow> parser \<Rightarrow> 'a parse_result" where
  "ret x p = Some (Inr (x, p))"

definition syntax_error :: "'a parse_result" where
  "syntax_error = Some (Inl ERR_SYNTACTIC)"

definition uncaught :: "error \<Rightarrow> 'a parse_result" where
  "uncaught e = Some (Inl e)"

fun pbind :: "'a parse_result \<Rightarrow> ('a \<times> parser \<Rightarrow> 'b parse_result) \<Rightarrow> 'b parse_result" where
  "pbind None f = None"
| "pbind (Some (Inl e)) f = Some (Inl e)"
| "pbind (Some (Inr r)) f = f r"

definition reserved :: "string set" where
  "reserved = {''self'', ''super'', ''true'', ''false'', ''nil'', ''class''}"

definition current_token :: "parser \<Rightarrow> token option" where
  "current_token p = (if p_pos p < length (p_tokens p) then Some (p_tokens p ! p_pos p) else None)"

definition current_type :: "parser \<Rightarrow> token_type option" where
  "current_type p = map_option tok_type (current_token p)"

definition consume :: "token_type option \<Rightarrow> parser \<Rightarrow> token parse_result" where
  "consume expected_type p =
     (case current_token p of
        None \<Rightarrow> syntax_error
      | Some token \<Rightarrow>
          if (case expected_type of Some ty \<Rightarrow> tok_type token \<noteq> ty | None \<Rightarrow> False)
          then syntax_error
          else ret token (p\<lparr>p_pos := p_pos p + 1,
                            p_last_token_end := tok_pos token + length (tok_value token)\<rparr>))"

text \<open>\<^verbatim>\<open>self.pos + 1 < len(self.tokens) and self.tokens[self.pos + 1].type == "COLON"\<close>\<close>

definition next_is_colon :: "parser \<Rightarrow> bool" where
  "next_is_colon p \<longleftrightarrow>
     p_pos p + 1 < length (p_tokens p) \<and> tok_type (p_tokens p ! (p_pos p + 1)) = COLON"

text \<open>\<^verbatim>\<open>value[0]\<close> raises IndexError on the empty string.\<close>

definition first_char :: "string \<Rightarrow> parser \<Rightarrow> char parse_result" where
  "first_char v p = (case v of [] \<Rightarrow> uncaught Uncaught_IndexError | c # cs \<Rightarrow> ret c p)"

subsection \<open>Selectors of method definitions\<close>

fun parse_selector_loop :: "nat \<Rightarrow> string \<Rightarrow> parser \<Rightarrow> string parse_result" where
  "parse_selector_loop 0 selector p = None"
| "parse_selector_loop (Suc n) selector p =
     (case current_token p of
        None \<Rightarrow> ret selector p
      | Some t \<Rightarrow>
          if tok_type t \<noteq> COLON then ret selector p
          else if tok_pos t \<noteq> p_last_token_end p then syntax_error
          else pbind (consume (Some COLON) p) (\<lambda>(colon_token, p).
            (case current_token p of
               None \<Rightarrow> parse_selector_loop n (selector @ '':'') p
             | Some t2 \<Rightarrow>
                 if tok_type t2 \<noteq> IDENT then parse_selector_loop n (selector @ '':'') p
                 else if tok_pos t2 \<noteq> p_last_token_end p then syntax_error
                 else pbind (consume (Some IDENT) p) (\<lambda>(token2, p).
                   parse_selector_loop n (selector @ '':'' @ tok_value token2) p))))"

definition parse_selector :: "nat \<Rightarrow> parser \<Rightarrow> string parse_result" where
  "parse_selector n p =
     pbind (consume (Some IDENT) p) (\<lambda>(token, p).
     pbind (first_char (tok_value token) p) (\<lambda>(c, p).
       if \<not> islower c then syntax_error
       else pbind (parse_selector_loop n (tok_value token) p) (\<lambda>(selector, p).
         if CHR '':'' \<notin> set selector \<and> selector \<in> reserved then syntax_error
         else ret selector p)))"

subsection \<open>Block headers\<close>

fun parse_parameters :: "nat \<Rightarrow> nat \<Rightarrow> parameter list \<Rightarrow> parser \<Rightarrow> parameter list parse_result" where
  "parse_parameters 0 order parameters p = None"
| "parse_parameters (Suc n) order parameters p =
     (if current_type p \<noteq> Some COLON then ret parameters p
      else pbind (consume (Some COLON) p) (\<lambda>(colon_token, p).
        (case current_token p of
           None \<Rightarrow> syntax_error
         | Some t \<Rightarrow>
             if tok_type t \<noteq> IDENT then syntax_error
             else if tok_pos t \<noteq> tok_pos colon_token + length (tok_value colon_token)
             then syntax_error
             else pbind (consume (Some IDENT) p) (\<lambda>(param_token, p).
               pbind (first_char (tok_value param_token) p) (\<lambda>(c, p).
                 if \<not> (islower c \<or> c = CHR ''_'') then syntax_error
                 else if tok_value param_token \<in> reserved then syntax_error
                 else parse_parameters n (order + 1)
                        (parameters @ [\<lparr>param_name = tok_value param_token, param_order = order\<rparr>])
                        p)))))"

definition parse_block_header :: "nat \<Rightarrow> parser \<Rightarrow> parameter list parse_result" where
  "parse_block_header n p =
     (if current_type p = Some PIPE then
        pbind (consume (Some PIPE) p) (\<lambda>(t, p). ret [] p)
      else if current_type p = Some COLON then
        pbind (parse_parameters n 1 [] p) (\<lambda>(parameters, p).
          if current_type p \<noteq> Some PIPE then syntax_error
          else pbind (consume (Some PIPE) p) (\<lambda>(t, p). ret parameters p))
      else syntax_error)"

subsection \<open>Expressions, assignments and blocks\<close>

text \<open>
  \<^verbatim>\<open>parse_block\<close>, \<^verbatim>\<open>parse_assignment\<close>, \<^verbatim>\<open>parse_expr\<close>, \<^verbatim>\<open>parse_expr_base\<close>,
  \<^verbatim>\<open>parse_expr_tail\<close> and \<^verbatim>\<open>_parse_send_tail\<close> call one another. The body of
  each of them is a definition of its own that takes the methods it calls as arguments; the
  recursive family below passes them in with one unit of fuel less. The three loops
  (\<open>parse_assignments\<close> for the commands of a block, \<open>parse_expr_tail\<close> itself, and
  \<open>send_tail_loop\<close> for the later parts of a keyword selector) are members of the
  family: one turn of the loop is one call.
\<close>

definition parse_block_body ::
  "nat \<Rightarrow> (nat \<Rightarrow> assignment list \<Rightarrow> parser \<Rightarrow> assignment list parse_result)
     \<Rightarrow> parser \<Rightarrow> block parse_result" where
  "parse_block_body n assignments_parser p =
     pbind (consume (Some LBRACKET) p) (\<lambda>(lbracket, p).
     pbind (parse_block_header n p) (\<lambda>(parameters, p).
     pbind (assignments_parser 1 [] p) (\<lambda>(assigns, p).
     pbind (consume (Some RBRACKET) p) (\<lambda>(t, p).
       ret (Block parameters assigns) p))))"

definition parse_assignments_body ::
  "(nat \<Rightarrow> parser \<Rightarrow> assignment parse_result)
     \<Rightarrow> (nat \<Rightarrow> assignment list \<Rightarrow> parser \<Rightarrow> assignment list parse_result)
     \<Rightarrow> nat \<Rightarrow> assignment list \<Rightarrow> parser \<Rightarrow> assignment list parse_result" where
  "parse_assignments_body assignment_parser next_turn order assigns p =
     (if current_type p = None \<or> current_type p = Some RBRACKET then ret assigns p
      else pbind (assignment_parser order p) (\<lambda>(assign, p).
        next_turn (order + 1) (assigns @ [assign]) p))"

definition parse_assignment_body ::
  "(parser \<Rightarrow> expr parse_result) \<Rightarrow> nat \<Rightarrow> parser \<Rightarrow> assignment parse_result" where
  "parse_assignment_body expr_parser order p =
     pbind (consume (Some IDENT) p) (\<lambda>(var_token, p).
       if tok_value var_token \<in> reserved then syntax_error
       else pbind (consume (Some ASSIGN) p) (\<lambda>(t, p).
            pbind (expr_parser p) (\<lambda>(expr_node, p).
            pbind (consume (Some DOT) p) (\<lambda>(t, p).
              ret (Assignment (tok_value var_token) (tok_pos var_token) expr_node order) p))))"

definition parse_expr_body ::
  "(parser \<Rightarrow> expr parse_result) \<Rightarrow> (expr \<Rightarrow> parser \<Rightarrow> expr parse_result)
     \<Rightarrow> parser \<Rightarrow> expr parse_result" where
  "parse_expr_body expr_base_parser expr_tail_parser p =
     pbind (expr_base_parser p) (\<lambda>(base, p). expr_tail_parser base p)"

definition parse_expr_base_body ::
  "(parser \<Rightarrow> expr parse_result) \<Rightarrow> (parser \<Rightarrow> block parse_result)
     \<Rightarrow> parser \<Rightarrow> expr parse_result" where
  "parse_expr_base_body expr_parser block_parser p =
     (case current_token p of
        None \<Rightarrow> syntax_error
      | Some token \<Rightarrow>
          if tok_type token = LPAREN then
            pbind (consume (Some LPAREN) p) (\<lambda>(t, p).
            pbind (expr_parser p) (\<lambda>(e, p).
            pbind (consume (Some RPAREN) p) (\<lambda>(t, p). ret e p)))
          else if tok_type token = LBRACKET then
            pbind (block_parser p) (\<lambda>(b, p). ret (BlockExpr b) p)
          else if tok_type token = NUMBER then
            pbind (consume (Some NUMBER) p) (\<lambda>(token, p).
              ret (Literal ''Integer'' (tok_value token) (tok_pos token)) p)
          else if tok_type token = STRING then
            pbind (consume (Some STRING) p) (\<lambda>(token, p).
              ret (Literal ''String'' (tok_value token) (tok_pos token)) p)
          else if tok_type token = IDENT then
            pbind (consume (Some IDENT) p) (\<lambda>(token, p).
              if tok_value token = ''true'' then ret (Literal ''True'' ''true'' (tok_pos token)) p
              else if tok_value token = ''false'' then ret (Literal ''False'' ''false'' (tok_pos token)) p
              else if tok_value token = ''nil'' then ret (Literal ''Nil'' ''nil'' (tok_pos token)) p
              else pbind (first_char (tok_value token) p) (\<lambda>(c, p).
                if isupper c then ret (Literal ''class'' (tok_value token) (tok_pos token)) p
                else ret (Var (tok_value token) (tok_pos token)) p))
          else syntax_error)"

definition parse_expr_tail_body ::
  "(expr \<Rightarrow> parser \<Rightarrow> expr parse_result) \<Rightarrow> (expr \<Rightarrow> parser \<Rightarrow> expr parse_result)
     \<Rightarrow> expr \<Rightarrow> parser \<Rightarrow> expr parse_result" where
  "parse_expr_tail_body send_tail_parser next_turn base p =
     (if current_type p = Some IDENT then
        (if next_is_colon p then
           pbind (send_tail_parser base p) (\<lambda>(base, p). next_turn base p)
         else
           pbind (consume (Some IDENT) p) (\<lambda>(token, p).
             next_turn (Send (tok_value token) base [] (tok_pos token)) p))
      else if current_type p = Some COLON then
        pbind (send_tail_parser base p) (\<lambda>(base, p). next_turn base p)
      else ret base p)"

text \<open>
  The two checks \<^verbatim>\<open>self.current_token is None or self.current_token.type != "COLON" or
  self.current_token.pos != ident_token.pos + len(ident_token.value)\<close> of
  \<^verbatim>\<open>_parse_send_tail\<close>.
\<close>

definition colon_follows :: "token \<Rightarrow> parser \<Rightarrow> bool" where
  "colon_follows ident_token p \<longleftrightarrow>
     (case current_token p of
        None \<Rightarrow> False
      | Some t \<Rightarrow> tok_type t = COLON
                 \<and> tok_pos t = tok_pos ident_token + length (tok_value ident_token))"

definition send_tail_first ::
  "(parser \<Rightarrow> expr parse_result) \<Rightarrow> token \<Rightarrow> parser
     \<Rightarrow> (string list \<times> expr list) parse_result" where
  "send_tail_first expr_base_parser t p =
     (if tok_type t = IDENT then
        pbind (consume (Some IDENT) p) (\<lambda>(ident_token, p).
          if \<not> colon_follows ident_token p then syntax_error
          else pbind (consume (Some COLON) p) (\<lambda>(t, p).
               pbind (expr_base_parser p) (\<lambda>(arg_expr, p).
                 ret ([tok_value ident_token, '':''], [arg_expr]) p)))
      else
        (if current_type p \<noteq> Some COLON then syntax_error
         else pbind (consume (Some COLON) p) (\<lambda>(t, p).
              pbind (expr_base_parser p) (\<lambda>(arg_expr, p).
                ret (['':''], [arg_expr]) p))))"

definition parse_send_tail_body ::
  "(parser \<Rightarrow> expr parse_result)
     \<Rightarrow> (string list \<Rightarrow> expr list \<Rightarrow> parser \<Rightarrow> (string list \<times> expr list) parse_result)
     \<Rightarrow> expr \<Rightarrow> parser \<Rightarrow> expr parse_result" where
  "parse_send_tail_body expr_base_parser loop base p =
     (case current_token p of
        None \<Rightarrow> uncaught Uncaught_AttributeError
      | Some t \<Rightarrow>
          pbind (send_tail_first expr_base_parser t p) (\<lambda>((selector_parts, args), p).
          pbind (loop selector_parts args p) (\<lambda>((selector_parts, args), p).
            (case pos_of base of
               None \<Rightarrow> uncaught Uncaught_AttributeError
             | Some base_pos \<Rightarrow> ret (Send (concat selector_parts) base args base_pos) p))))"

definition send_tail_loop_body ::
  "(parser \<Rightarrow> expr parse_result)
     \<Rightarrow> (string list \<Rightarrow> expr list \<Rightarrow> parser \<Rightarrow> (string list \<times> expr list) parse_result)
     \<Rightarrow> string list \<Rightarrow> expr list \<Rightarrow> parser \<Rightarrow> (string list \<times> expr list) parse_result" where
  "send_tail_loop_body expr_base_parser next_turn selector_parts args p =
     (if current_type p = Some IDENT \<and> next_is_colon p then
        pbind (consume (Some IDENT) p) (\<lambda>(ident_token, p).
          if \<not> colon_follows ident_token p then syntax_error
          else pbind (consume (Some COLON) p) (\<lambda>(t, p).
               pbind (expr_base_parser p) (\<lambda>(arg_expr, p).
                 next_turn (selector_parts @ [tok_value ident_token, '':''])
                   (args @ [arg_expr]) p)))
      else ret (selector_parts, args) p)"

function parse_block :: "nat \<Rightarrow> parser \<Rightarrow> block parse_result"
and parse_assignments :: "nat \<Rightarrow> nat \<Rightarrow> assignment list \<Rightarrow> parser \<Rightarrow> assignment list parse_result"
and parse_assignment :: "nat \<Rightarrow> nat \<Rightarrow> parser \<Rightarrow> assignment parse_result"
and parse_expr :: "nat \<Rightarrow> parser \<Rightarrow> expr parse_result"
and parse_expr_base :: "nat \<Rightarrow> parser \<Rightarrow> expr parse_result"
and parse_expr_tail :: "nat \<Rightarrow> expr \<Rightarrow> parser \<Rightarrow> expr parse_result"
and parse_send_tail :: "nat \<Rightarrow> expr \<Rightarrow> parser \<Rightarrow> expr parse_result"
and send_tail_loop :: "nat \<Rightarrow> string list \<Rightarrow> expr list \<Rightarrow> parser \<Rightarrow> (string list \<times> expr list) parse_result"
where
  "parse_block 0 p = None"
| "parse_block (Suc n) p =
     parse_block_body n (\<lambda>order assigns q. parse_assignments n order assigns q) p"
| "parse_assignments 0 order assigns p = None"
| "parse_assignments (Suc n) order assigns p =
     parse_assignments_body (\<lambda>order q. parse_assignment n order q)
       (\<lambda>order assigns q. parse_assignments n order assigns q) order assigns p"
| "parse_assignment 0 order p = None"
| "parse_assignment (Suc n) order p = parse_assignment_body (\<lambda>q. parse_expr n q) order p"
| "parse_expr 0 p = None"
| "parse_expr (Suc n) p =
     parse_expr_body (\<lambda>q. parse_expr_base n q) (\<lambda>base q. parse_expr_tail n base q) p"
| "parse_expr_base 0 p = None"
| "parse_expr_base (Suc n) p =
     parse_expr_base_body (\<lambda>q. parse_expr n q) (\<lambda>q. parse_block n q) p"
| "parse_expr_tail 0 base p = None"
| "parse_expr_tail (Suc n) base p =
     parse_expr_tail_body (\<lambda>base q. parse_send_tail n base q)
       (\<lambda>base q. parse_expr_tail n base q) base p"
| "parse_send_tail 0 base p = None"
| "parse_send_tail (Suc n) base p =
     parse_send_tail_body (\<lambda>q. parse_expr_base n q)
       (\<lambda>selector_parts args q. send_tail_loop n selector_parts args q) base p"
| "send_tail_loop 0 selector_parts args p = None"
| "send_tail_loop (Suc n) selector_parts args p =
     send_tail_loop_body (\<lambda>q. parse_expr_base n q)
       (\<lambda>selector_parts args q. send_tail_loop n selector_parts args q) selector_parts args p"
  by pat_completeness auto
termination
  by (relation "measure (case_sum (case_sum (case_sum fst fst) (case_sum fst fst))
                                  (case_sum (case_sum fst fst) (case_sum fst fst)))")
     simp_all

subsection \<open>Methods, classes and programs\<close>

definition parse_method :: "nat \<Rightarrow> parser \<Rightarrow> methoddef parse_result" where
  "parse_method n p =
     pbind (parse_selector n p) (\<lambda>(selector, p).
     pbind (parse_block n p) (\<lambda>(b, p).
       ret \<lparr>method_selector = selector, method_block = b\<rparr> p))"

fun parse_methods :: "nat \<Rightarrow> methoddef list \<Rightarrow> parser \<Rightarrow> methoddef list parse_result" where
  "parse_methods 0 methods p = None"
| "parse_methods (Suc n) methods p =
     (if current_type p = None \<or> current_type p = Some RBRACE then ret methods p
      else pbind (parse_method n p) (\<lambda>(m, p). parse_methods n (methods @ [m]) p))"

definition valid_class_identifier :: "string \<Rightarrow> parser \<Rightarrow> unit parse_result" where
  "valid_class_identifier v p =
     pbind (first_char v p) (\<lambda>(c, p).
       if \<not> isupper c \<or> CHR ''_'' \<in> set v then syntax_error else ret () p)"

definition parse_class :: "nat \<Rightarrow> parser \<Rightarrow> classdef parse_result" where
  "parse_class n p =
     pbind (consume (Some IDENT) p) (\<lambda>(token, p).
       if tok_value token \<noteq> ''class'' then syntax_error
       else
         pbind (consume (Some IDENT) p) (\<lambda>(class_name_token, p).
         pbind (valid_class_identifier (tok_value class_name_token) p) (\<lambda>(u, p).
         pbind (consume (Some COLON) p) (\<lambda>(t, p).
         pbind (consume (Some IDENT) p) (\<lambda>(parent_token, p).
         pbind (valid_class_identifier (tok_value parent_token) p) (\<lambda>(u, p).
         pbind (consume (Some LBRACE) p) (\<lambda>(t, p).
         pbind (parse_methods n [] p) (\<lambda>(methods, p).
         pbind (consume (Some RBRACE) p) (\<lambda>(t, p).
           ret \<lparr>class_name = tok_value class_name_token,
                class_parent = tok_value parent_token,
                class_methods = methods\<rparr> p)))))))))"

fun parse_classes :: "nat \<Rightarrow> classdef list \<Rightarrow> parser \<Rightarrow> classdef list parse_result" where
  "parse_classes 0 classes p = None"
| "parse_classes (Suc n) classes p =
     (if current_type p = None then ret classes p
      else pbind (parse_class n p) (\<lambda>(cls, p). parse_classes n (classes @ [cls]) p))"

text \<open>
  \<^verbatim>\<open>min(comment_tokens, key=lambda t: t.pos)\<close>, the first token of least position, and
  \<^verbatim>\<open>str.strip('"')\<close>, which removes every leading and trailing double quote.
\<close>

fun min_by_pos :: "token \<Rightarrow> token list \<Rightarrow> token" where
  "min_by_pos best [] = best"
| "min_by_pos best (t # ts) = min_by_pos (if tok_pos t < tok_pos best then t else best) ts"

definition strip_quotes :: "string \<Rightarrow> string" where
  "strip_quotes s = rev (dropWhile (\<lambda>c. c = dquote) (rev (dropWhile (\<lambda>c. c = dquote) s)))"

definition find_description :: "token list \<Rightarrow> string option" where
  "find_description tokens =
     (case filter (\<lambda>t. tok_type t = COMMENT) tokens of
        [] \<Rightarrow> None
      | t # ts \<Rightarrow> Some (strip_quotes (tok_value (min_by_pos t ts))))"

text \<open>
  A call costs one unit of fuel and a loop one unit for each turn. Every turn of a loop
  and every second nested call consumes a token, so twice the number of tokens, and a
  margin for the calls that lead to the first token, is enough.
\<close>

definition parse_fuel :: "token list \<Rightarrow> nat" where
  "parse_fuel tokens = 2 * length tokens + 16"

definition parse :: "token list \<Rightarrow> (error + program) option" where
  "parse tokens =
     (let description = find_description tokens;
          p = \<lparr>p_tokens = filter (\<lambda>t. tok_type t \<noteq> COMMENT) tokens, p_pos = 0, p_last_token_end = 0\<rparr>
      in case parse_classes (parse_fuel (p_tokens p)) [] p of
           None \<Rightarrow> None
         | Some (Inl e) \<Rightarrow> Some (Inl e)
         | Some (Inr (classes, p')) \<Rightarrow>
             Some (Inr \<lparr>program_classes = classes, program_description = description\<rparr>))"

section \<open>Semantic analysis\<close>

subsection \<open>Built-in classes\<close>

text \<open>
  \<^verbatim>\<open>builtin_parents.get(cls_name, None)\<close>: the parent of a built-in class, and \<open>None\<close> both
  for \<^verbatim>\<open>Object\<close> and for a name that is not in the table.
\<close>

definition builtin_parents_get :: "string \<Rightarrow> string option" where
  "builtin_parents_get cls_name =
     (if cls_name \<in> {''Nil'', ''Integer'', ''String'', ''Block'', ''True'', ''False''}
      then Some ''Object'' else None)"

definition builtin_methods :: "string \<rightharpoonup> string set" where
  "builtin_methods =
     [''Object'' \<mapsto> {''new'', ''from:'', ''identicalTo:'', ''equalTo:'', ''asString'',
                     ''isNumber'', ''isString'', ''isBlock'', ''isNil''},
      ''Nil'' \<mapsto> {''asString''},
      ''Integer'' \<mapsto> {''equalTo:'', ''greaterThan:'', ''plus:'', ''minus:'', ''multiplyBy:'',
                      ''divBy:'', ''asString'', ''asInteger'', ''timesRepeat:''},
      ''String'' \<mapsto> {''read'', ''print'', ''equalTo:'', ''asString'', ''asInteger'',
                     ''concatenateWith:'', ''startsWith:'', ''endsBefore:''},
      ''Block'' \<mapsto> {''value'', ''value:'', ''value:value:''},
      ''True'' \<mapsto> {''not'', ''and:'', ''or:'', ''ifTrue:ifFalse:''},
      ''False'' \<mapsto> {''not'', ''and:'', ''or:'', ''ifTrue:ifFalse:''}]"

definition builtin_classes :: "string set" where
  "builtin_classes = {''Object'', ''Integer'', ''String'', ''Nil'', ''True'', ''False'', ''Block''}"

function lookup_builtin_method :: "string \<Rightarrow> string \<Rightarrow> bool" where
  "lookup_builtin_method cls_name selector =
     (if selector \<in> (case builtin_methods cls_name of None \<Rightarrow> {} | Some ms \<Rightarrow> ms) then True
      else (case builtin_parents_get cls_name of
              Some parent \<Rightarrow> lookup_builtin_method parent selector
            | None \<Rightarrow> False))"
  by pat_completeness auto
termination
  by (relation "measure (\<lambda>(cls_name, selector).
                  case builtin_parents_get cls_name of None \<Rightarrow> 0 | Some parent \<Rightarrow> 1)")
     (auto simp: builtin_parents_get_def split: if_splits)

subsection \<open>The analyzer object\<close>

text \<open>
  The fields of \<^verbatim>\<open>SemanticAnalyzer\<close>. \<^verbatim>\<open>class_map\<close> is the dictionary \<^verbatim>\<open>seen\<close>, which
  holds the classes in the order of the program (a name is rejected before it could be
  stored twice); it is kept as the list of its items. \<^verbatim>\<open>dynamic_attrs\<close> maps a class name
  to the set of its attribute names.
\<close>

record analyzer =
  global_classes :: "string set"
  class_map :: "(string \<times> classdef) list"
  dynamic_attrs :: "string \<rightharpoonup> string set"

fun ebind :: "error + 'a \<Rightarrow> ('a \<Rightarrow> error + 'b) \<Rightarrow> error + 'b" where
  "ebind (Inl e) f = Inl e"
| "ebind (Inr x) f = f x"

definition endswith_colon :: "string \<Rightarrow> bool" where
  "endswith_colon selector \<longleftrightarrow> selector \<noteq> [] \<and> last selector = CHR '':''"

text \<open>\<^verbatim>\<open>any(m.selector == selector for m in methods)\<close> and the first such method.\<close>

definition find_method :: "methoddef list \<Rightarrow> string \<Rightarrow> methoddef option" where
  "find_method methods selector = find (\<lambda>m. method_selector m = selector) methods"

text \<open>
  \<^verbatim>\<open>lookup_method\<close> climbs the user-defined classes and then the built-in ones. The fuel
  is the depth of recursion left; every call made with an acyclic \<^verbatim>\<open>class_map\<close> needs
  fewer levels than there are classes, and on a cycle the source recurses until the
  interpreter raises RecursionError.
\<close>

fun lookup_method :: "nat \<Rightarrow> (string \<times> classdef) list \<Rightarrow> string \<Rightarrow> string \<Rightarrow> error + bool" where
  "lookup_method 0 cm cls_name selector = Inl Uncaught_RecursionError"
| "lookup_method (Suc n) cm cls_name selector =
     (case map_of cm cls_name of
        Some cls_node \<Rightarrow>
          if find_method (class_methods cls_node) selector \<noteq> None then Inr True
          else if map_of cm (class_parent cls_node) \<noteq> None
          then lookup_method n cm (class_parent cls_node) selector
          else Inr (lookup_builtin_method (class_parent cls_node) selector)
      | None \<Rightarrow> Inr (lookup_builtin_method cls_name selector))"

subsection \<open>Checks on classes\<close>

fun check_duplicate_classes ::
  "classdef list \<Rightarrow> (string \<times> classdef) list \<Rightarrow> error + (string \<times> classdef) list" where
  "check_duplicate_classes [] seen = Inr seen"
| "check_duplicate_classes (cls # rest) seen =
     (if map_of seen (class_name cls) \<noteq> None then Inl ERR_SEMANTIC_OTHER
      else check_duplicate_classes rest (seen @ [(class_name cls, cls)]))"

fun check_duplicate_methods :: "methoddef list \<Rightarrow> string set \<Rightarrow> error + unit" where
  "check_duplicate_methods [] seen_methods = Inr ()"
| "check_duplicate_methods (m # rest) seen_methods =
     (if method_selector m \<in> seen_methods then Inl ERR_SEMANTIC_OTHER
      else check_duplicate_methods rest (insert (method_selector m) seen_methods))"

fun check_all_duplicate_methods :: "classdef list \<Rightarrow> error + unit" where
  "check_all_duplicate_methods [] = Inr ()"
| "check_all_duplicate_methods (cls # rest) =
     ebind (check_duplicate_methods (class_methods cls) {}) (\<lambda>u.
       check_all_duplicate_methods rest)"

fun check_run :: "methoddef list \<Rightarrow> bool \<Rightarrow> error + bool" where
  "check_run [] main_found = Inr main_found"
| "check_run (m # rest) main_found =
     (if method_selector m = ''run'' then
        (if length (block_parameters (method_block m)) \<noteq> 0 then Inl ERR_ARITY
         else check_run rest True)
      else check_run rest main_found)"

fun check_main :: "classdef list \<Rightarrow> bool \<Rightarrow> error + bool" where
  "check_main [] main_found = Inr main_found"
| "check_main (cls # rest) main_found =
     (if class_name cls = ''Main'' then
        ebind (check_run (class_methods cls) main_found) (\<lambda>main_found.
          check_main rest main_found)
      else check_main rest main_found)"

fun check_parents :: "classdef list \<Rightarrow> string set \<Rightarrow> error + unit" where
  "check_parents [] global = Inr ()"
| "check_parents (cls # rest) global =
     (if class_parent cls \<noteq> ''Object'' \<and> class_parent cls \<notin> global
         \<and> class_parent cls \<notin> builtin_classes
      then Inl ERR_UNDEFINED_VAR
      else check_parents rest global)"

subsection \<open>Circular inheritance\<close>

text \<open>\<^verbatim>\<open>visited.get(name, 0)\<close>\<close>

definition visited_get :: "(string \<rightharpoonup> nat) \<Rightarrow> string \<Rightarrow> nat" where
  "visited_get visited cls_name = (case visited cls_name of None \<Rightarrow> 0 | Some state \<Rightarrow> state)"

text \<open>
  \<^verbatim>\<open>_dfs_check\<close> returns whether a cycle was found, beside the dictionary \<^verbatim>\<open>visited\<close> it
  has updated. It calls itself on a class in state 0 only, just after it has put its
  own class in state 1: the classes in state 0, the current one apart, become fewer.
\<close>

function dfs_check ::
  "(string \<times> classdef) list \<Rightarrow> string \<Rightarrow> (string \<rightharpoonup> nat) \<Rightarrow> error + bool \<times> (string \<rightharpoonup> nat)" where
  "dfs_check cm cls_name visited =
     (case map_of cm cls_name of
        None \<Rightarrow> Inl Uncaught_KeyError
      | Some cls \<Rightarrow>
          if map_of cm (class_parent cls) \<noteq> None then
            (if visited_get (visited(cls_name \<mapsto> 1)) (class_parent cls) = 1
             then Inr (True, visited(cls_name \<mapsto> 1))
             else if visited_get (visited(cls_name \<mapsto> 1)) (class_parent cls) = 0 then
               (case dfs_check cm (class_parent cls) (visited(cls_name \<mapsto> 1)) of
                  Inl e \<Rightarrow> Inl e
                | Inr (found, visited') \<Rightarrow>
                    if found then Inr (True, visited')
                    else Inr (False, visited'(cls_name \<mapsto> 2)))
             else Inr (False, visited(cls_name \<mapsto> 1, cls_name \<mapsto> 2)))
          else Inr (False, visited(cls_name \<mapsto> 1, cls_name \<mapsto> 2)))"
  by pat_completeness auto
termination
proof (relation "measure (\<lambda>(cm, cls_name, visited).
          card {k \<in> fst ` set cm. visited_get visited k = 0 \<and> k \<noteq> cls_name})", goal_cases)
  case 1
  show ?case by simp
next
  case (2 cm cls_name visited cls)
  let ?parent = "class_parent cls"
  let ?small = "{k \<in> fst ` set cm. visited_get (visited(cls_name \<mapsto> 1)) k = 0 \<and> k \<noteq> ?parent}"
  let ?big = "{k \<in> fst ` set cm. visited_get visited k = 0 \<and> k \<noteq> cls_name}"
  from 2 have key: "?parent \<in> fst ` set cm"
    by (auto simp: map_of_eq_None_iff)
  from 2 have unvisited: "visited_get (visited(cls_name \<mapsto> 1)) ?parent = 0"
    by simp
  then have "?parent \<noteq> cls_name" and "visited_get visited ?parent = 0"
    by (auto simp: visited_get_def split: if_splits)
  with key have "?parent \<in> ?big" by simp
  moreover have "?parent \<notin> ?small" by simp
  moreover have "?small \<subseteq> ?big"
    by (auto simp: visited_get_def split: if_splits)
  ultimately have "?small \<subset> ?big" by blast
  moreover have "finite ?big" by simp
  ultimately have "card ?small < card ?big" by (rule psubset_card_mono [rotated])
  then show ?case by simp
qed

fun circular_loop ::
  "(string \<times> classdef) list \<Rightarrow> string list \<Rightarrow> (string \<rightharpoonup> nat) \<Rightarrow> error + unit" where
  "circular_loop cm [] visited = Inr ()"
| "circular_loop cm (cls_name # rest) visited =
     (if visited_get visited cls_name = 0 then
        ebind (dfs_check cm cls_name visited) (\<lambda>(found, visited).
          if found then Inl ERR_SEMANTIC_OTHER else circular_loop cm rest visited)
      else circular_loop cm rest visited)"

definition check_circular_inheritance :: "analyzer \<Rightarrow> error + unit" where
  "check_circular_inheritance a = circular_loop (class_map a) (map fst (class_map a)) Map.empty"

subsection \<open>Dynamic attributes\<close>

text \<open>\<^verbatim>\<open>self.dynamic_attrs[name].add(attr_name)\<close>; a missing key raises KeyError.\<close>

definition add_dynamic_attr :: "string \<Rightarrow> string \<Rightarrow> analyzer \<Rightarrow> error + analyzer" where
  "add_dynamic_attr cls_name attr_name a =
     (case dynamic_attrs a cls_name of
        None \<Rightarrow> Inl Uncaught_KeyError
      | Some attrs \<Rightarrow> Inr (a\<lparr>dynamic_attrs := (dynamic_attrs a)(cls_name \<mapsto> insert attr_name attrs)\<rparr>))"

text \<open>\<^verbatim>\<open>isinstance(expr.target, Var) and expr.target.name == "self"\<close>\<close>

fun is_self :: "expr \<Rightarrow> bool" where
  "is_self (Var name pos) = (name = ''self'')"
| "is_self (Literal literal_class v pos) = False"
| "is_self (BlockExpr b) = False"
| "is_self (Send selector target args pos) = False"

function collect_dynamic_attributes_expr :: "expr \<Rightarrow> classdef \<Rightarrow> analyzer \<Rightarrow> error + analyzer"
and collect_dynamic_attributes_args :: "expr list \<Rightarrow> classdef \<Rightarrow> analyzer \<Rightarrow> error + analyzer"
and collect_dynamic_attributes :: "block \<Rightarrow> classdef \<Rightarrow> analyzer \<Rightarrow> error + analyzer"
and collect_dynamic_attributes_assigns :: "assignment list \<Rightarrow> classdef \<Rightarrow> analyzer \<Rightarrow> error + analyzer"
where
  "collect_dynamic_attributes_expr (Send selector target args pos) current_class a =
     ebind (if is_self target \<and> endswith_colon selector
            then add_dynamic_attr (class_name current_class) (butlast selector) a
            else Inr a) (\<lambda>a.
     ebind (collect_dynamic_attributes_expr target current_class a) (\<lambda>a.
       collect_dynamic_attributes_args args current_class a))"
| "collect_dynamic_attributes_expr (BlockExpr b) current_class a =
     collect_dynamic_attributes b current_class a"
| "collect_dynamic_attributes_expr (Var name pos) current_class a = Inr a"
| "collect_dynamic_attributes_expr (Literal literal_class v pos) current_class a = Inr a"
| "collect_dynamic_attributes_args [] current_class a = Inr a"
| "collect_dynamic_attributes_args (arg # rest) current_class a =
     ebind (collect_dynamic_attributes_expr arg current_class a) (\<lambda>a.
       collect_dynamic_attributes_args rest current_class a)"
| "collect_dynamic_attributes (Block parameters assigns) current_class a =
     collect_dynamic_attributes_assigns assigns current_class a"
| "collect_dynamic_attributes_assigns [] current_class a = Inr a"
| "collect_dynamic_attributes_assigns (Assignment name pos e order # rest) current_class a =
     ebind (collect_dynamic_attributes_expr e current_class a) (\<lambda>a.
       collect_dynamic_attributes_assigns rest current_class a)"
  by pat_completeness auto
termination
  by (relation "measure (case_sum
         (case_sum (\<lambda>(e, c, a). size e) (\<lambda>(es, c, a). size_list size es))
         (case_sum (\<lambda>(b, c, a). size b) (\<lambda>(as, c, a). size_list size as)))")
     simp_all

text \<open>\<^verbatim>\<open>collect_class_dynamic_attributes\<close>: the loop over the methods of a class.\<close>

fun collect_methods :: "methoddef list \<Rightarrow> classdef \<Rightarrow> analyzer \<Rightarrow> error + analyzer" where
  "collect_methods [] cls a = Inr a"
| "collect_methods (m # rest) cls a =
     ebind (collect_dynamic_attributes (method_block m) cls a) (\<lambda>a. collect_methods rest cls a)"

definition collect_class_dynamic_attributes :: "classdef \<Rightarrow> analyzer \<Rightarrow> error + analyzer" where
  "collect_class_dynamic_attributes cls a = collect_methods (class_methods cls) cls a"

subsection \<open>Expressions\<close>

text \<open>
  The part of \<^verbatim>\<open>analyze_expr\<close> for a message sent to \<^verbatim>\<open>self\<close>: the arity of a method of
  the current class, or else an attribute setter or getter.
\<close>

definition analyze_self_send :: "string \<Rightarrow> expr list \<Rightarrow> classdef \<Rightarrow> analyzer \<Rightarrow> error + analyzer" where
  "analyze_self_send selector args current_class a =
     (case find_method (class_methods current_class) selector of
        Some method_found \<Rightarrow>
          if length (block_parameters (method_block method_found)) \<noteq> length args
          then Inl ERR_ARITY else Inr a
      | None \<Rightarrow>
          if endswith_colon selector then
            (if length args \<noteq> 1 then Inl ERR_ARITY
             else add_dynamic_attr (class_name current_class) (butlast selector) a)
          else
            (if length args \<noteq> 0 then Inl ERR_ARITY
             else (case dynamic_attrs a (class_name current_class) of
                     None \<Rightarrow> Inl Uncaught_KeyError
                   | Some attrs \<Rightarrow>
                       if selector \<notin> attrs then Inl ERR_UNDEFINED_VAR else Inr a)))"

text \<open>
  The two checks on a receiver that names a class: a \<^verbatim>\<open>Literal\<close> of class \<^verbatim>\<open>class\<close>, and a
  \<^verbatim>\<open>Var\<close> whose name starts with an uppercase letter.
\<close>

definition check_class_method :: "string \<Rightarrow> string \<Rightarrow> analyzer \<Rightarrow> error + analyzer" where
  "check_class_method cls_name selector a =
     ebind (lookup_method (Suc (length (class_map a))) (class_map a) cls_name selector) (\<lambda>found.
       if \<not> found then Inl ERR_UNDEFINED_VAR else Inr a)"

fun analyze_class_receiver :: "expr \<Rightarrow> string \<Rightarrow> analyzer \<Rightarrow> error + analyzer" where
  "analyze_class_receiver (Literal literal_class v pos) selector a =
     (if literal_class = ''class'' then check_class_method v selector a else Inr a)"
| "analyze_class_receiver (Var name pos) selector a =
     (case name of
        [] \<Rightarrow> Inl Uncaught_IndexError
      | c # cs \<Rightarrow> if isupper c then check_class_method name selector a else Inr a)"
| "analyze_class_receiver (BlockExpr b) selector a = Inr a"
| "analyze_class_receiver (Send s target args pos) selector a = Inr a"

text \<open>
  \<^verbatim>\<open>analyze_expr\<close>. A \<^verbatim>\<open>Block\<close> is none of \<^verbatim>\<open>Var\<close>, \<^verbatim>\<open>Literal\<close> and \<^verbatim>\<open>Send\<close>: nothing is
  checked inside it.
\<close>

function analyze_expr :: "expr \<Rightarrow> (string \<rightharpoonup> string) \<Rightarrow> classdef \<Rightarrow> analyzer \<Rightarrow> error + analyzer"
and analyze_args :: "expr list \<Rightarrow> (string \<rightharpoonup> string) \<Rightarrow> classdef \<Rightarrow> analyzer \<Rightarrow> error + analyzer"
where
  "analyze_expr (Var name pos) env current_class a =
     (if env name = None then
        (case name of
           [] \<Rightarrow> Inl Uncaught_IndexError
         | c # cs \<Rightarrow>
             if isupper c then
               (if name \<notin> global_classes a then Inl ERR_UNDEFINED_VAR else Inr a)
             else Inl ERR_UNDEFINED_VAR)
      else Inr a)"
| "analyze_expr (Literal literal_class v pos) env current_class a =
     (if literal_class = ''class'' \<and> v \<notin> global_classes a \<and> builtin_methods v = None
      then Inl ERR_UNDEFINED_VAR else Inr a)"
| "analyze_expr (BlockExpr b) env current_class a = Inr a"
| "analyze_expr (Send selector target args pos) env current_class a =
     (if selector \<in> reserved then Inl ERR_SYNTACTIC
      else
        ebind (analyze_expr target env current_class a) (\<lambda>a.
        ebind (analyze_args args env current_class a) (\<lambda>a.
        ebind (if is_self target then analyze_self_send selector args current_class a
               else Inr a) (\<lambda>a.
          analyze_class_receiver target selector a))))"
| "analyze_args [] env current_class a = Inr a"
| "analyze_args (arg # rest) env current_class a =
     ebind (analyze_expr arg env current_class a) (\<lambda>a. analyze_args rest env current_class a)"
  by pat_completeness auto
termination
  by (relation "measure (case_sum (\<lambda>(e, r). size e) (\<lambda>(es, r). size_list size es))")
     simp_all

subsection \<open>Blocks\<close>

fun check_duplicate_parameters :: "parameter list \<Rightarrow> string set \<Rightarrow> error + unit" where
  "check_duplicate_parameters [] seen_params = Inr ()"
| "check_duplicate_parameters (param # rest) seen_params =
     (if param_name param \<in> seen_params then Inl ERR_SEMANTIC_OTHER
      else check_duplicate_parameters rest (insert (param_name param) seen_params))"

text \<open>\<^verbatim>\<open>env = {param.name: "param" for param in block.parameters}; env["self"] = "param"\<close>\<close>

definition initial_env :: "parameter list \<Rightarrow> (string \<rightharpoonup> string)" where
  "initial_env params =
     (fold (\<lambda>param env. env(param_name param \<mapsto> ''param'')) params Map.empty)
       (''self'' \<mapsto> ''param'')"

fun analyze_assigns ::
  "assignment list \<Rightarrow> (string \<rightharpoonup> string) \<Rightarrow> classdef \<Rightarrow> analyzer \<Rightarrow> error + analyzer" where
  "analyze_assigns [] env current_class a = Inr a"
| "analyze_assigns (assign # rest) env current_class a =
     (if env (var_name assign) = Some ''param'' then Inl ERR_VAR_COLLISION
      else
        ebind (analyze_expr (assign_expr assign) env current_class a) (\<lambda>a.
          analyze_assigns rest
            (if env (var_name assign) = None then env(var_name assign \<mapsto> ''local'') else env)
            current_class a))"

definition analyze_block :: "block \<Rightarrow> classdef \<Rightarrow> analyzer \<Rightarrow> error + analyzer" where
  "analyze_block b current_class a =
     ebind (check_duplicate_parameters (block_parameters b) {}) (\<lambda>u.
     ebind (collect_dynamic_attributes b current_class a) (\<lambda>a.
       analyze_assigns (block_assigns b) (initial_env (block_parameters b)) current_class a))"

subsection \<open>The whole analysis\<close>

fun init_dynamic_attrs :: "classdef list \<Rightarrow> analyzer \<Rightarrow> analyzer" where
  "init_dynamic_attrs [] a = a"
| "init_dynamic_attrs (cls # rest) a =
     init_dynamic_attrs rest (a\<lparr>dynamic_attrs := (dynamic_attrs a)(class_name cls \<mapsto> {})\<rparr>)"

fun collect_classes :: "classdef list \<Rightarrow> analyzer \<Rightarrow> error + analyzer" where
  "collect_classes [] a = Inr a"
| "collect_classes (cls # rest) a =
     ebind (collect_class_dynamic_attributes cls a) (\<lambda>a. collect_classes rest a)"

fun analyze_methods :: "methoddef list \<Rightarrow> classdef \<Rightarrow> analyzer \<Rightarrow> error + analyzer" where
  "analyze_methods [] cls a = Inr a"
| "analyze_methods (m # rest) cls a =
     ebind (analyze_block (method_block m) cls a) (\<lambda>a. analyze_methods rest cls a)"

fun analyze_classes :: "classdef list \<Rightarrow> analyzer \<Rightarrow> error + analyzer" where
  "analyze_classes [] a = Inr a"
| "analyze_classes (cls # rest) a =
     ebind (analyze_methods (class_methods cls) cls a) (\<lambda>a. analyze_classes rest a)"

text \<open>
  \<^verbatim>\<open>SemanticAnalyzer.analyze\<close>, in the order of the source: duplicate classes, duplicate
  methods, the \<^verbatim>\<open>Main\<close> class and its \<^verbatim>\<open>run\<close>, the parents, circular inheritance, then
  the pass that collects the dynamic attributes of all classes and the pass that
  analyzes every method. The result is the analyzer object as the analysis leaves it.
\<close>

definition analyze :: "program \<Rightarrow> error + analyzer" where
  "analyze prog =
     ebind (check_duplicate_classes (program_classes prog) []) (\<lambda>seen.
     ebind (check_all_duplicate_methods (program_classes prog)) (\<lambda>u.
     ebind (check_main (program_classes prog) False) (\<lambda>main_found.
       if \<not> main_found then Inl ERR_MISSING_MAIN
       else
         ebind (check_parents (program_classes prog) (set (map fst seen))) (\<lambda>u.
         ebind (check_circular_inheritance
                  \<lparr>global_classes = set (map fst seen), class_map = seen,
                   dynamic_attrs = Map.empty\<rparr>) (\<lambda>u.
         ebind (collect_classes (program_classes prog)
                  (init_dynamic_attrs (program_classes prog)
                     \<lparr>global_classes = set (map fst seen), class_map = seen,
                      dynamic_attrs = Map.empty\<rparr>)) (\<lambda>a.
           analyze_classes (program_classes prog) a))))))"

section \<open>XML generation\<close>

subsection \<open>Strings\<close>

text \<open>
  \<^verbatim>\<open>str.replace(old, new)\<close> for a non-empty \<^verbatim>\<open>old\<close> (the only use the source makes of
  it): the occurrences are found from the left and do not overlap.
\<close>

function str_replace :: "string \<Rightarrow> string \<Rightarrow> string \<Rightarrow> string" where
  "str_replace old new [] = []"
| "str_replace old new (c # cs) =
     (if old \<noteq> [] \<and> prefix old (c # cs)
      then new @ str_replace old new (drop (length old) (c # cs))
      else c # str_replace old new cs)"
  by pat_completeness auto
termination
  by (relation "measure (\<lambda>(old, new, s). length s)") (auto simp: neq_Nil_conv)

text \<open>\<^verbatim>\<open>str(n)\<close> of a natural number.\<close>

definition digit_char :: "nat \<Rightarrow> char" where
  "digit_char d = ''0123456789'' ! d"

function str_nat :: "nat \<Rightarrow> string" where
  "str_nat n = (if n < 10 then [digit_char n] else str_nat (n div 10) @ [digit_char (n mod 10)])"
  by pat_completeness auto
termination
  by (relation "measure id") auto

subsection \<open>Element trees and their serialization\<close>

text \<open>
  An element of \<^verbatim>\<open>xml.etree.ElementTree\<close>: tag, attributes in the order they were
  given, and children. No element of this program has text. \<^verbatim>\<open>ET.tostring\<close> writes an
  element without children as \<^verbatim>\<open><tag attributes />\<close>, and escapes attribute values
  with \<^verbatim>\<open>_escape_attrib\<close>, a chain of replacements that starts with the ampersand.
\<close>

datatype element = Element string "(string \<times> string) list" "element list"

definition escape_attrib :: "string \<Rightarrow> string" where
  "escape_attrib text =
     str_replace [CHR 0x09] ''&#09;''
       (str_replace [newline] ''&#10;''
         (str_replace [CHR 0x0D] ''&#13;''
           (str_replace [dquote] ''&quot;''
             (str_replace ''>'' ''&gt;''
               (str_replace ''<'' ''&lt;''
                 (str_replace ''&'' ''&amp;'' text))))))"

definition serialize_attrib :: "string \<times> string \<Rightarrow> string" where
  "serialize_attrib kv = '' '' @ fst kv @ ''='' @ [dquote] @ escape_attrib (snd kv) @ [dquote]"

fun tostring :: "element \<Rightarrow> string" where
  "tostring (Element tag attrib children) =
     ''<'' @ tag @ concat (map serialize_attrib attrib)
       @ (if children = [] then '' />''
          else ''>'' @ concat (map tostring children) @ ''</'' @ tag @ ''>'')"

subsection \<open>From the syntax tree to elements\<close>

text \<open>
  The value a \<^verbatim>\<open>Literal\<close> passes to its \<^verbatim>\<open>value\<close> attribute: for a string literal the
  apostrophes are replaced first and the backslashes second.
\<close>

definition literal_value :: "string \<Rightarrow> string \<Rightarrow> string" where
  "literal_value literal_class v =
     (if literal_class = ''String''
      then str_replace [backslash] [backslash, backslash] (str_replace [apostrophe] ''&apos;'' v)
      else v)"

lemma size_member: "x \<in> set xs \<Longrightarrow> size x < Suc (size_list size xs)"
  by (induction xs) auto

lemma size_enumerate_snd: "(i, x) \<in> set (enumerate n xs) \<Longrightarrow> size x < Suc (size_list size xs)"
  by (rule size_member) (auto simp: in_set_enumerate_eq)

lemma size_assign_member:
  "x \<in> set xs \<Longrightarrow> size (assign_expr x) < Suc (size_list size xs)"
proof -
  assume "x \<in> set xs"
  then have "size x < Suc (size_list size xs)"
    by (rule size_member)
  moreover have "size (assign_expr x) < size x"
    by (cases x) simp
  ultimately show ?thesis by simp
qed

function generate_xml_expr :: "expr \<Rightarrow> element"
and generate_xml_block :: "block \<Rightarrow> element"
where
  "generate_xml_expr (Literal literal_class v pos) =
     Element ''literal'' [(''class'', literal_class), (''value'', literal_value literal_class v)] []"
| "generate_xml_expr (Var name pos) = Element ''var'' [(''name'', name)] []"
| "generate_xml_expr (BlockExpr b) = generate_xml_block b"
| "generate_xml_expr (Send selector target args pos) =
     Element ''send'' [(''selector'', selector)]
       (Element ''expr'' [] [generate_xml_expr target]
        # map (\<lambda>(index, arg_expr).
                 Element ''arg'' [(''order'', str_nat index)]
                   [Element ''expr'' [] [generate_xml_expr arg_expr]])
              (enumerate 1 args))"
| "generate_xml_block (Block params assigns) =
     Element ''block'' [(''arity'', str_nat (length params))]
       (map (\<lambda>param. Element ''parameter''
                        [(''name'', param_name param), (''order'', str_nat (param_order param))] [])
            (sort_key param_order params)
        @ map (\<lambda>assign. Element ''assign'' [(''order'', str_nat (assign_order assign))]
                          [Element ''var'' [(''name'', var_name assign)] [],
                           Element ''expr'' [] [generate_xml_expr (assign_expr assign)]])
              (sort_key assign_order assigns))"
  by pat_completeness auto
termination
  by (relation "measure (case_sum size size)")
     (auto dest: size_enumerate_snd size_assign_member)

subsection \<open>The rewriting of literal values\<close>

text \<open>
  \<^verbatim>\<open>replace_in_literals\<close> substitutes every match of
  \<^verbatim>\<open>(<literal\b[^>]*\svalue=")([^"]*)(")\<close>. A match at the start of \<open>s\<close>: \<open>s\<close> begins with
  \<^verbatim>\<open><literal\<close>, no word character follows, and among the characters before the next
  \<^verbatim>\<open>>\<close> the greedy \<^verbatim>\<open>[^>]*\<close> stops at the last place where a whitespace character,
  \<^verbatim>\<open>value="\<close> and a closing quote follow. The value runs up to that quote.
\<close>

definition isword :: "char \<Rightarrow> bool" where
  "isword c \<longleftrightarrow> ident_char c
     \<or> c \<in> {CHR 0xAA, CHR 0xB2, CHR 0xB3, CHR 0xB5, CHR 0xB9, CHR 0xBA, CHR 0xBC, CHR 0xBD, CHR 0xBE}
     \<or> (0xC0 \<le> (of_char c :: nat) \<and> c \<noteq> CHR 0xD7 \<and> c \<noteq> CHR 0xF7)"

definition value_at :: "string \<Rightarrow> string option" where
  "value_at s =
     (case s of
        [] \<Rightarrow> None
      | c # cs \<Rightarrow>
          if isspace c \<and> prefix (''value='' @ [dquote]) cs
          then (let rest = drop 7 cs; v = takeWhile (\<lambda>x. x \<noteq> dquote) rest
                in if length v < length rest then Some v else None)
          else None)"

definition literal_match :: "string \<Rightarrow> (string \<times> string) option" where
  "literal_match s =
     (if prefix ''<literal'' s
         \<and> (case drop 8 s of [] \<Rightarrow> True | c # cs \<Rightarrow> \<not> isword c)
      then
        (case find (\<lambda>k. value_at (drop (8 + k) s) \<noteq> None)
                (rev [0..<Suc (length (takeWhile (\<lambda>x. x \<noteq> CHR ''>'') (drop 8 s)))]) of
           None \<Rightarrow> None
         | Some k \<Rightarrow>
             (case value_at (drop (8 + k) s) of
                None \<Rightarrow> None
              | Some v \<Rightarrow> Some (take (8 + k + 8) s, v)))
      else None)"

text \<open>The function \<^verbatim>\<open>replacer\<close>, applied to the value of a match.\<close>

definition replacer_value :: "string \<Rightarrow> string" where
  "replacer_value v =
     str_replace ''&#10;'' [backslash, CHR ''n'']
       (str_replace ''&amp;apos;'' (backslash # ''&apos;'') v)"


function replace_in_literals :: "string \<Rightarrow> string" where
  "replace_in_literals [] = []"
| "replace_in_literals (c # cs) =
     (case literal_match (c # cs) of
        None \<Rightarrow> c # replace_in_literals cs
      | Some (pre, v) \<Rightarrow>
          pre @ replacer_value v @ [dquote]
            @ replace_in_literals (drop (length pre + length v + 1) (c # cs)))"
  by pat_completeness auto
termination
  by (relation "measure length") auto

subsection \<open>The document\<close>

definition generate_xml :: "program \<Rightarrow> string" where
  "generate_xml prog =
     ''<?xml version='' @ [dquote] @ ''1.0'' @ [dquote] @ '' encoding='' @ [dquote] @ ''UTF-8''
       @ [dquote] @ ''?>'' @ [newline]
     @ replace_in_literals (tostring
         (Element ''program''
            ((''language'', ''SOL25'')
             # (case program_description prog of
                  None \<Rightarrow> []
                | Some d \<Rightarrow> if d = [] then []
                            else [(''description'', str_replace '' '' ''&nbsp;'' d)]))
            (map (\<lambda>cls.
                    Element ''class'' [(''name'', class_name cls), (''parent'', class_parent cls)]
                      (map (\<lambda>m. Element ''method'' [(''selector'', method_selector m)]
                                   [generate_xml_block (method_block m)])
                           (class_methods cls)))
                 (program_classes prog))))"

section \<open>The program\<close>

text \<open>
  \<^verbatim>\<open>main\<close>, called without arguments, on the text read from standard input: the exit
  code of the first phase that fails, or else the text printed on standard output.
  \<open>parse_source\<close> is its first half, the lexer followed by the parser.
\<close>

definition parse_source :: "string \<Rightarrow> (error + program) option" where
  "parse_source code =
     (case tokenize code of
        Inl e \<Rightarrow> Some (Inl e)
      | Inr tokens \<Rightarrow> parse tokens)"

definition main :: "string \<Rightarrow> (error + string) option" where
  "main code =
     (case parse_source code of
        None \<Rightarrow> None
      | Some (Inl e) \<Rightarrow> Some (Inl e)
      | Some (Inr ast) \<Rightarrow>
          (case analyze ast of
             Inl e \<Rightarrow> Some (Inl e)
           | Inr a \<Rightarrow>
               Some (Inr (str_replace ''&amp;nbsp;'' '' '' (generate_xml ast) @ [newline]))))"

definition exit_status :: "(error + string) option \<Rightarrow> nat option" where
  "exit_status r = map_option (\<lambda>x. case x of Inl e \<Rightarrow> exit_code e | Inr out \<Rightarrow> 0) r"

section \<open>The Send nodes of a tree\<close>

text \<open>
  The nodes of class \<^verbatim>\<open>Send\<close> in an expression, a block and a program: the node itself,
  the nodes in its target and its arguments, and the nodes in the commands of every
  block literal.
\<close>

function sends_expr :: "expr \<Rightarrow> expr list"
and sends_args :: "expr list \<Rightarrow> expr list"
and sends_block :: "block \<Rightarrow> expr list"
and sends_assigns :: "assignment list \<Rightarrow> expr list"
where
  "sends_expr (Var name pos) = []"
| "sends_expr (Literal literal_class v pos) = []"
| "sends_expr (BlockExpr b) = sends_block b"
| "sends_expr (Send selector target args pos) =
     Send selector target args pos # sends_expr target @ sends_args args"
| "sends_args [] = []"
| "sends_args (arg # rest) = sends_expr arg @ sends_args rest"
| "sends_block (Block params assigns) = sends_assigns assigns"
| "sends_assigns [] = []"
| "sends_assigns (Assignment name pos e order # rest) = sends_expr e @ sends_assigns rest"
  by pat_completeness auto
termination
  by (relation "measure (case_sum (case_sum size (size_list size)) (case_sum size (size_list size)))")
     simp_all

definition sends_program :: "program \<Rightarrow> expr list" where
  "sends_program prog =
     concat (map (\<lambda>cls. concat (map (\<lambda>m. sends_block (method_block m)) (class_methods cls)))
                 (program_classes prog))"

section \<open>Notions used in the proofs\<close>

text \<open>
  \<open>send_ok\<close> is what the parser guarantees of a \<^verbatim>\<open>Send\<close>: as many arguments as colons
  in the selector, and, when it has arguments, the position of its target.
  \<open>good_tokens\<close> is what the lexer guarantees of identifiers: no colon in their value.
  \<open>keeps ts Q f\<close> says of a parsing method \<open>f\<close> that, started on the token list \<open>ts\<close>,
  it leaves the token list as it is and returns results that satisfy \<open>Q\<close>.
\<close>

fun send_ok :: "expr \<Rightarrow> bool" where
  "send_ok (Send selector target args pos) \<longleftrightarrow>
     length args = count_list selector (CHR '':'') \<and> (args \<noteq> [] \<longrightarrow> pos_of target = Some pos)"
| "send_ok e \<longleftrightarrow> True"

definition good_tokens :: "token list \<Rightarrow> bool" where
  "good_tokens ts \<longleftrightarrow> (\<forall>t \<in> set ts. tok_type t = IDENT \<longrightarrow> CHR '':'' \<notin> set (tok_value t))"

definition keeps :: "token list \<Rightarrow> ('a \<Rightarrow> bool) \<Rightarrow> (parser \<Rightarrow> 'a parse_result) \<Rightarrow> bool" where
  "keeps ts Q f \<longleftrightarrow>
     (\<forall>p x p'. p_tokens p = ts \<longrightarrow> f p = Some (Inr (x, p')) \<longrightarrow> p_tokens p' = ts \<and> Q x)"

definition sends_ok :: "expr list \<Rightarrow> bool" where
  "sends_ok ss \<longleftrightarrow> list_all send_ok ss"

abbreviation ok_e :: "expr \<Rightarrow> bool" where "ok_e e \<equiv> sends_ok (sends_expr e)"
abbreviation ok_b :: "block \<Rightarrow> bool" where "ok_b b \<equiv> sends_ok (sends_block b)"
abbreviation ok_as :: "assignment list \<Rightarrow> bool" where "ok_as as \<equiv> sends_ok (sends_assigns as)"

definition loop_inv :: "string list \<times> expr list \<Rightarrow> bool" where
  "loop_inv r \<longleftrightarrow> length (snd r) = count_list (concat (fst r)) (CHR '':'') \<and> snd r \<noteq> []
                  \<and> sends_ok (sends_args (snd r))"

definition ok_ms :: "methoddef list \<Rightarrow> bool" where
  "ok_ms ms \<longleftrightarrow> sends_ok (concat (map (\<lambda>m. sends_block (method_block m)) ms))"

definition ok_cs :: "classdef list \<Rightarrow> bool" where
  "ok_cs cs \<longleftrightarrow>
     sends_ok (concat (map (\<lambda>cls. concat (map (\<lambda>m. sends_block (method_block m))
                                                (class_methods cls))) cs))"

section \<open>Properties\<close>

subsection \<open>The order of the checks on classes\<close>

text \<open>
  Claim C5, as amended. On the source text \<^verbatim>\<open>class A:B{} class B:A{}\<close> the program
  ends with exit code 31 (\<open>ERR_MISSING_MAIN\<close>): \<^verbatim>\<open>analyze\<close> looks for the class \<^verbatim>\<open>Main\<close>
  and its method \<^verbatim>\<open>run\<close> before it looks for circular inheritance. With such a class in
  front of the two, \<^verbatim>\<open>class Main:Object{run[|]} class A:B{} class B:A{}\<close>, the program
  ends with exit code 35 (\<open>ERR_SEMANTIC_OTHER\<close>).
\<close>

theorem cycle_needs_main:
  "exit_status (main ''class A:B{} class B:A{}'') = Some (exit_code ERR_MISSING_MAIN)
   \<and> exit_code ERR_MISSING_MAIN = 31
   \<and> exit_status (main ''class Main:Object{run[|]} class A:B{} class B:A{}'')
       = Some (exit_code ERR_SEMANTIC_OTHER)
   \<and> exit_code ERR_SEMANTIC_OTHER = 35"
  by code_simp

text \<open>
  Claim C5 as the specification states it, exit code 35 on \<^verbatim>\<open>class A:B{} class B:A{}\<close>,
  does not hold.
\<close>

theorem cycle_without_main_counterexample:
  "exit_status (main ''class A:B{} class B:A{}'') \<noteq> Some 35"
  by code_simp

subsection \<open>A keyword message that starts with a colon\<close>

text \<open>
  Claim C10. The assignment \<^verbatim>\<open>x := 1 : 2.\<close> is accepted by the parser: the tail of the
  expression starts with a colon, and the result is a \<^verbatim>\<open>Send\<close> whose selector is the one
  character \<^verbatim>\<open>:\<close>, with one argument. The program passes the semantic analysis and
  the document printed has \<^verbatim>\<open><send selector=":">\<close>.
\<close>

theorem bare_colon_send:
  "parse_source ''class Main:Object{run[|x := 1 : 2.]}'' =
     Some (Inr \<lparr>program_classes =
                  [\<lparr>class_name = ''Main'', class_parent = ''Object'',
                    class_methods =
                      [\<lparr>method_selector = ''run'',
                        method_block =
                          Block []
                            [Assignment ''x'' 23
                               (Send '':'' (Literal ''Integer'' ''1'' 28)
                                  [Literal ''Integer'' ''2'' 32] 28) 1]\<rparr>]\<rparr>],
                program_description = None\<rparr>)
   \<and> main ''class Main:Object{run[|x := 1 : 2.]}'' =
     Some (Inr
       (''<?xml version='' @ [dquote] @ ''1.0'' @ [dquote] @ '' encoding='' @ [dquote]
        @ ''UTF-8'' @ [dquote] @ ''?>'' @ [newline]
        @ ''<program language='' @ [dquote] @ ''SOL25'' @ [dquote]
        @ ''><class name='' @ [dquote] @ ''Main'' @ [dquote]
        @ '' parent='' @ [dquote] @ ''Object'' @ [dquote]
        @ ''><method selector='' @ [dquote] @ ''run'' @ [dquote]
        @ ''><block arity='' @ [dquote] @ ''0'' @ [dquote]
        @ ''><assign order='' @ [dquote] @ ''1'' @ [dquote]
        @ ''><var name='' @ [dquote] @ ''x'' @ [dquote]
        @ '' /><expr><send selector='' @ [dquote] @ '':'' @ [dquote]
        @ ''><expr><literal class='' @ [dquote] @ ''Integer'' @ [dquote]
        @ '' value='' @ [dquote] @ ''1'' @ [dquote]
        @ '' /></expr><arg order='' @ [dquote] @ ''1'' @ [dquote]
        @ ''><expr><literal class='' @ [dquote] @ ''Integer'' @ [dquote]
        @ '' value='' @ [dquote] @ ''2'' @ [dquote]
        @ '' /></expr></arg></send></expr></assign></block></method></class></program>''
        @ [newline]))"
  by code_simp

subsection \<open>Selectors and parameters of methods\<close>










subsection \<open>The target of an assignment\<close>




subsection \<open>String literals in the document\<close>









subsection \<open>The values of the tokens and the source text\<close>

lemma match_run_le: "match_run P s = Some n \<Longrightarrow> n \<le> length s"
  by (auto simp: match_run_def Let_def length_takeWhile_le split: if_splits)

lemma match_quoted_body_le: "match_quoted_body q s = Some n \<Longrightarrow> n \<le> length s"
  by (induction q s arbitrary: n rule: match_quoted_body.induct)
     (auto split: if_splits list.splits)

lemma match_quoted_le: "match_quoted q s = Some n \<Longrightarrow> n \<le> length s"
  by (auto simp: match_quoted_def split: list.splits if_splits dest: match_quoted_body_le)

lemma match_number_le: "match_number s = Some n \<Longrightarrow> n \<le> length s"
  by (auto simp: match_number_def split: list.splits if_splits dest: match_run_le)

lemma match_ident_le: "match_ident s = Some n \<Longrightarrow> n \<le> length s"
  by (auto simp: match_ident_def length_takeWhile_le split: list.splits if_splits)

lemma match_text_le: "match_text lit s = Some n \<Longrightarrow> n \<le> length s"
  by (auto simp: match_text_def prefix_def split: if_splits)

lemma match_any_le: "match_any s = Some n \<Longrightarrow> n \<le> length s"
  by (cases s) (auto simp: match_any_def split: if_splits)

lemma first_match_le: "first_match token_specification s = Some (ty, n) \<Longrightarrow> n \<le> length s"
  by (auto simp: token_specification_def split: option.splits
      dest: match_run_le match_quoted_le match_number_le match_ident_le match_any_le
            match_text_le)

lemma master_pattern_match_le:
  "master_pattern_match code pos = Some (ty, e) \<Longrightarrow> pos \<le> length code \<Longrightarrow> e \<le> length code"
  by (auto simp: master_pattern_match_def dest!: first_match_le)

lemma first_match_whitespace:
  "first_match token_specification s = Some (WHITESPACE, n) \<Longrightarrow> s \<noteq> [] \<and> isspace (hd s)"
  by (cases s) (auto simp: token_specification_def match_run_def Let_def split: option.splits if_splits)

lemma master_pattern_match_whitespace:
  "master_pattern_match code pos = Some (WHITESPACE, e) \<Longrightarrow> \<exists>c \<in> set (drop pos code). isspace c"
  by (auto simp: master_pattern_match_def dest!: first_match_whitespace intro: hd_in_set)

lemma tokenize_loop_keeps:
  "tokenize_loop code pos acc = Inr tokens \<Longrightarrow> set acc \<subseteq> set tokens"
proof (induction code pos acc rule: tokenize_loop.induct)
  case (1 code pos acc)
  show ?case
  proof (cases "pos < length code")
    case False
    with "1.prems" show ?thesis by (simp add: tokenize_loop.simps [of code pos acc])
  next
    case True
    from "1.prems" have unf: "(case master_pattern_match code pos of
           None \<Rightarrow> Inl ERR_LEXICAL
         | Some (ty, e) \<Rightarrow>
             (if ty = WHITESPACE then tokenize_loop code e acc
              else if ty = COMMENT then
                tokenize_loop code e (acc @ [Token COMMENT (take (e - pos) (drop pos code)) pos])
              else if ty = STRING then
                (case process_string_literal (take (e - pos) (drop pos code)) of
                   Inl err \<Rightarrow> Inl err
                 | Inr processed_value \<Rightarrow>
                     tokenize_loop code e (acc @ [Token STRING processed_value pos]))
              else if ty = OTHER then Inl ERR_LEXICAL
              else tokenize_loop code e (acc @ [Token ty (take (e - pos) (drop pos code)) pos])))
        = Inr tokens"
      using True by (simp add: tokenize_loop.simps [of code pos acc])
    then obtain ty e where m: "master_pattern_match code pos = Some (ty, e)"
      by (cases "master_pattern_match code pos") auto
    show ?thesis
      using "1.IH" [OF True m] unf m
      by (auto split: if_splits sum.splits)
  qed
qed

lemma tokenize_loop_concat:
  "tokenize_loop code pos acc = Inr tokens \<Longrightarrow> pos \<le> length code
   \<Longrightarrow> \<forall>c \<in> set (drop pos code). \<not> isspace c
   \<Longrightarrow> \<forall>t \<in> set tokens. tok_type t \<noteq> STRING
   \<Longrightarrow> concat (map tok_value tokens) = concat (map tok_value acc) @ drop pos code"
proof (induction code pos acc rule: tokenize_loop.induct)
  case (1 code pos acc)
  show ?case
  proof (cases "pos < length code")
    case False
    with "1.prems" show ?thesis by (simp add: tokenize_loop.simps [of code pos acc])
  next
    case True
    from "1.prems"(1) have unf: "(case master_pattern_match code pos of
           None \<Rightarrow> Inl ERR_LEXICAL
         | Some (ty, e) \<Rightarrow>
             (if ty = WHITESPACE then tokenize_loop code e acc
              else if ty = COMMENT then
                tokenize_loop code e (acc @ [Token COMMENT (take (e - pos) (drop pos code)) pos])
              else if ty = STRING then
                (case process_string_literal (take (e - pos) (drop pos code)) of
                   Inl err \<Rightarrow> Inl err
                 | Inr processed_value \<Rightarrow>
                     tokenize_loop code e (acc @ [Token STRING processed_value pos]))
              else if ty = OTHER then Inl ERR_LEXICAL
              else tokenize_loop code e (acc @ [Token ty (take (e - pos) (drop pos code)) pos])))
        = Inr tokens"
      using True by (simp add: tokenize_loop.simps [of code pos acc])
    then obtain ty e where m: "master_pattern_match code pos = Some (ty, e)"
      by (cases "master_pattern_match code pos") auto
    from m have lt: "pos < e" by (rule master_pattern_match_end)
    from m "1.prems"(2) have le: "e \<le> length code" by (rule master_pattern_match_le)
    from m "1.prems"(3) have nws: "ty \<noteq> WHITESPACE"
      by (auto dest: master_pattern_match_whitespace)
    have later: "\<forall>c \<in> set (drop e code). \<not> isspace c"
      using "1.prems"(3) lt by (metis in_set_dropD drop_drop le_add_diff_inverse2 less_imp_le)
    have split: "take (e - pos) (drop pos code) @ drop e code = drop pos code"
      using lt by (metis append_take_drop_id drop_drop le_add_diff_inverse2 less_imp_le)
    have nother: "ty \<noteq> OTHER"
      using unf m by auto
    have nstring: "ty \<noteq> STRING"
    proof
      assume s: "ty = STRING"
      with unf m obtain pv where
        "tokenize_loop code e (acc @ [Token STRING pv pos]) = Inr tokens"
        by (auto split: sum.splits)
      then have "Token STRING pv pos \<in> set tokens"
        by (auto dest: tokenize_loop_keeps)
      with "1.prems"(4) show False by (auto simp: Token_def)
    qed
    show ?thesis
    proof (cases "ty = COMMENT")
      case True
      with unf m
      have run: "tokenize_loop code e (acc @ [Token COMMENT (take (e - pos) (drop pos code)) pos]) = Inr tokens"
        by simp
      from "1.IH"(2) [OF \<open>pos < length code\<close> m _ _ True run le later "1.prems"(4)] nws
      show ?thesis using split by (simp add: Token_def)
    next
      case False
      with unf m nws nstring nother
      have run: "tokenize_loop code e (acc @ [Token ty (take (e - pos) (drop pos code)) pos]) = Inr tokens"
        by simp
      from "1.IH"(4) [OF \<open>pos < length code\<close> m _ _ False nstring nother run le later "1.prems"(4)] nws
      show ?thesis using split by (simp add: Token_def)
    qed
  qed
qed

text \<open>
  Claim C6, as amended. For every source text without whitespace that the lexer accepts
  and whose tokens include neither a comment nor a string literal, the values of the
  tokens, concatenated in order, are the source text.
\<close>

theorem lexer_round_trip:
  assumes "tokenize code = Inr tokens"
    and "list_all (\<lambda>c. \<not> isspace c) code"
    and "list_all (\<lambda>t. tok_type t \<noteq> COMMENT) tokens"
    and "list_all (\<lambda>t. tok_type t \<noteq> STRING) tokens"
  shows "concat (map tok_value tokens) = code"
  using tokenize_loop_concat [of code 0 "[]" tokens] assms
  by (simp add: tokenize_def list_all_iff)

theorem lexer_round_trip_witness:
  "tokenize ''x:=1.'' =
     Inr [Token IDENT ''x'' 0, Token ASSIGN '':='' 1, Token NUMBER ''1'' 3, Token DOT ''.'' 4]
   \<and> list_all (\<lambda>c. \<not> isspace c) ''x:=1.''
   \<and> list_all (\<lambda>t. tok_type t \<noteq> COMMENT)
         [Token IDENT ''x'' 0, Token ASSIGN '':='' 1, Token NUMBER ''1'' 3, Token DOT ''.'' 4]
   \<and> list_all (\<lambda>t. tok_type t \<noteq> STRING)
         [Token IDENT ''x'' 0, Token ASSIGN '':='' 1, Token NUMBER ''1'' 3, Token DOT ''.'' 4]
   \<and> concat (map tok_value [Token IDENT ''x'' 0, Token ASSIGN '':='' 1, Token NUMBER ''1'' 3,
                             Token DOT ''.'' 4]) = ''x:=1.''"
proof -
  have lexed: "tokenize ''x:=1.'' =
     Inr [Token IDENT ''x'' 0, Token ASSIGN '':='' 1, Token NUMBER ''1'' 3, Token DOT ''.'' 4]"
    by code_simp
  have no_space: "list_all (\<lambda>c. \<not> isspace c) ''x:=1.''"
    by (simp add: isspace_def)
  have no_comment: "list_all (\<lambda>t. tok_type t \<noteq> COMMENT)
         [Token IDENT ''x'' 0, Token ASSIGN '':='' 1, Token NUMBER ''1'' 3, Token DOT ''.'' 4]"
    by (simp add: Token_def)
  have no_string: "list_all (\<lambda>t. tok_type t \<noteq> STRING)
         [Token IDENT ''x'' 0, Token ASSIGN '':='' 1, Token NUMBER ''1'' 3, Token DOT ''.'' 4]"
    by (simp add: Token_def)
  from lexer_round_trip [OF lexed no_space no_comment no_string] lexed no_space no_comment no_string
  show ?thesis by simp
qed

text \<open>
  Claim C6 as the specification states it, string literals included, does not hold: the
  token of the literal \<^verbatim>\<open>'a'\<close> has the decoded value \<^verbatim>\<open>a\<close>, without the quotes.
\<close>

theorem string_round_trip_counterexample:
  "tokenize [apostrophe, CHR ''a'', apostrophe] = Inr [Token STRING ''a'' 0]
   \<and> filter isspace [apostrophe, CHR ''a'', apostrophe] = []
   \<and> concat (map tok_value [Token STRING ''a'' 0]) \<noteq> [apostrophe, CHR ''a'', apostrophe]"
  by code_simp

subsection \<open>What the parser guarantees of every Send\<close>

lemma sends_args_append [simp]: "sends_args (xs @ ys) = sends_args xs @ sends_args ys"
  by (induction xs) auto

lemma sends_assigns_append [simp]: "sends_assigns (xs @ ys) = sends_assigns xs @ sends_assigns ys"
proof (induction xs)
  case Nil then show ?case by simp
next
  case (Cons a xs) then show ?case by (cases a) simp
qed

lemma pbindE:
  assumes "pbind m f = Some (Inr r)"
  obtains x q where "m = Some (Inr (x, q))" "f (x, q) = Some (Inr r)"
proof (cases m)
  case None with assms show ?thesis by simp
next
  case (Some a)
  with assms that show ?thesis by (cases a) auto
qed

lemma consumeE:
  assumes "consume ty p = Some (Inr (t, p'))"
  shows "p_tokens p' = p_tokens p \<and> t \<in> set (p_tokens p) \<and> (ty = Some k \<longrightarrow> tok_type t = k)"
  using assms
  by (auto simp: consume_def current_token_def ret_def syntax_error_def
      split: option.splits if_splits)

lemma first_charE: "first_char v p = Some (Inr (c, p')) \<Longrightarrow> p' = p"
  by (auto simp: first_char_def ret_def uncaught_def split: list.splits)

lemma retE [simp]: "ret x p = Some (Inr (y, q)) \<longleftrightarrow> x = y \<and> p = q"
  by (auto simp: ret_def)

lemma syntax_error_ne [simp]: "syntax_error \<noteq> Some (Inr r)" "uncaught e \<noteq> Some (Inr r)"
  by (auto simp: syntax_error_def uncaught_def)

lemma keepsI:
  "(\<And>p x p'. p_tokens p = ts \<Longrightarrow> f p = Some (Inr (x, p')) \<Longrightarrow> p_tokens p' = ts \<and> Q x)
   \<Longrightarrow> keeps ts Q f"
  unfolding keeps_def by blast

lemma keepsD:
  "keeps ts Q f \<Longrightarrow> p_tokens p = ts \<Longrightarrow> f p = Some (Inr (x, p')) \<Longrightarrow> p_tokens p' = ts \<and> Q x"
  unfolding keeps_def by blast

lemma keeps_consume: "keeps ts (\<lambda>t. t \<in> set ts \<and> (ty = Some k \<longrightarrow> tok_type t = k)) (consume ty)"
proof (rule keepsI)
  fix p x p' assume "p_tokens p = ts" "consume ty p = Some (Inr (x, p'))"
  with consumeE [of ty p x p' k]
  show "p_tokens p' = ts \<and> x \<in> set ts \<and> (ty = Some k \<longrightarrow> tok_type x = k)" by simp
qed

lemma keeps_bind:
  assumes "keeps ts Q m" "\<And>x. Q x \<Longrightarrow> keeps ts R (\<lambda>p. f (x, p))"
  shows "keeps ts R (\<lambda>p. pbind (m p) f)"
proof (rule keepsI)
  fix p y p' assume p: "p_tokens p = ts" and r: "pbind (m p) f = Some (Inr (y, p'))"
  from r obtain x q where m: "m p = Some (Inr (x, q))" and f: "f (x, q) = Some (Inr (y, p'))"
    by (rule pbindE)
  from keepsD [OF assms(1) p m] have q: "p_tokens q = ts" and x: "Q x" by auto
  from keepsD [OF assms(2) [OF x] q f] show "p_tokens p' = ts \<and> R y" .
qed

lemma keeps_ret: "Q x \<Longrightarrow> keeps ts Q (ret x)"
  by (rule keepsI) simp

lemma keeps_error [simp]: "keeps ts Q (\<lambda>p. syntax_error)" "keeps ts Q (\<lambda>p. uncaught e)"
  "keeps ts Q (\<lambda>p. None)"
  by (rule keepsI, simp)+

lemma keeps_if:
  "(\<And>p. p_tokens p = ts \<Longrightarrow> c p \<Longrightarrow> keeps ts Q f) \<Longrightarrow> (\<And>p. p_tokens p = ts \<Longrightarrow> \<not> c p \<Longrightarrow> keeps ts Q g)
   \<Longrightarrow> keeps ts Q (\<lambda>p. if c p then f p else g p)"
proof (rule keepsI)
  fix p x p' assume p: "p_tokens p = ts" and r: "(if c p then f p else g p) = Some (Inr (x, p'))"
  assume f: "\<And>p. p_tokens p = ts \<Longrightarrow> c p \<Longrightarrow> keeps ts Q f"
    and g: "\<And>p. p_tokens p = ts \<Longrightarrow> \<not> c p \<Longrightarrow> keeps ts Q g"
  show "p_tokens p' = ts \<and> Q x"
  proof (cases "c p")
    case True
    with r have "f p = Some (Inr (x, p'))" by simp
    from keepsD [OF f [OF p True] p this] show ?thesis .
  next
    case False
    with r have "g p = Some (Inr (x, p'))" by simp
    from keepsD [OF g [OF p False] p this] show ?thesis .
  qed
qed

lemma keeps_weaken: "keeps ts Q f \<Longrightarrow> (\<And>x. Q x \<Longrightarrow> R x) \<Longrightarrow> keeps ts R f"
  unfolding keeps_def by blast

lemma keeps_first_char: "keeps ts (\<lambda>c. True) (first_char v)"
proof (rule keepsI)
  fix p x p' assume "p_tokens p = ts" "first_char v p = Some (Inr (x, p'))"
  with first_charE [of v p x p'] show "p_tokens p' = ts \<and> True" by simp
qed

lemma keeps_cong:
  assumes "\<And>p. f p = g p" "keeps ts Q g"
  shows "keeps ts Q f"
proof -
  from assms(1) have "f = g" by (rule ext)
  with assms(2) show ?thesis by simp
qed

lemma keeps_bind_split:
  assumes "keeps ts Q m" "\<And>x. Q x \<Longrightarrow> keeps ts R (f x)"
  shows "keeps ts R (\<lambda>p. pbind (m p) (\<lambda>(x, p). f x p))"
  using assms by (intro keeps_bind [where Q = Q]) simp_all

lemma keeps_case_token:
  assumes "keeps ts Q n" "\<And>t. t \<in> set ts \<Longrightarrow> keeps ts Q (s t)"
  shows "keeps ts Q (\<lambda>p. case current_token p of None \<Rightarrow> n p | Some t \<Rightarrow> s t p)"
proof (rule keepsI)
  fix p x p' assume p: "p_tokens p = ts"
    and r: "(case current_token p of None \<Rightarrow> n p | Some t \<Rightarrow> s t p) = Some (Inr (x, p'))"
  show "p_tokens p' = ts \<and> Q x"
  proof (cases "current_token p")
    case None
    with r have "n p = Some (Inr (x, p'))" by simp
    from keepsD [OF assms(1) p this] show ?thesis .
  next
    case (Some t)
    with p have "t \<in> set ts" by (auto simp: current_token_def split: if_splits)
    moreover from Some r have "s t p = Some (Inr (x, p'))" by simp
    ultimately show ?thesis using keepsD [OF assms(2) p] by blast
  qed
qed

lemma sends_ok_simps [simp]:
  "sends_ok []" "sends_ok (x # xs) \<longleftrightarrow> send_ok x \<and> sends_ok xs"
  "sends_ok (xs @ ys) \<longleftrightarrow> sends_ok xs \<and> sends_ok ys"
  by (auto simp: sends_ok_def)

lemma count_list_append [simp]: "count_list (xs @ ys) c = count_list xs c + count_list ys c"
  by (induction xs) auto

lemma count_list_absent: "c \<notin> set xs \<Longrightarrow> count_list xs c = 0"
  by (induction xs) auto

lemma keeps_bind_consume:
  assumes "\<And>t. t \<in> set ts \<Longrightarrow> tok_type t = k \<Longrightarrow> keeps ts R (f t)"
  shows "keeps ts R (\<lambda>p. pbind (consume (Some k) p) (\<lambda>(x, p). f x p))"
  by (rule keeps_bind_split [OF keeps_consume [where k = k]]) (simp add: assms)

lemma keeps_bind_first_char:
  assumes "\<And>c. keeps ts R (f c)"
  shows "keeps ts R (\<lambda>p. pbind (first_char v p) (\<lambda>(x, p). f x p))"
  by (rule keeps_bind_split [OF keeps_first_char]) (rule assms)

subsection \<open>Headers and selectors keep the token list\<close>

lemma parse_parameters_keeps: "keeps ts (\<lambda>x. True) (parse_parameters n order params)"
proof (induction n arbitrary: order params)
  case 0
  show ?case by (rule keepsI) simp
next
  case (Suc n)
  show ?case
    apply (rule keeps_cong [OF parse_parameters.simps(2)])
    apply (intro keeps_if keeps_bind_consume keeps_bind_first_char keeps_case_token
        keeps_error keeps_ret Suc.IH TrueI)
    done
qed

lemma parse_block_header_keeps: "keeps ts (\<lambda>x. True) (parse_block_header n)"
  apply (rule keeps_cong [OF parse_block_header_def])
  apply (intro keeps_if keeps_bind_consume keeps_error keeps_ret
      keeps_bind_split [OF parse_parameters_keeps] TrueI)
  done

lemma parse_selector_loop_keeps: "keeps ts (\<lambda>x. True) (parse_selector_loop n selector)"
proof (induction n arbitrary: selector)
  case 0
  show ?case by (rule keepsI) simp
next
  case (Suc n)
  show ?case
    apply (rule keeps_cong [OF parse_selector_loop.simps(2)])
    apply (intro keeps_if keeps_bind_consume keeps_case_token
        keeps_error keeps_ret Suc.IH TrueI)
    done
qed

lemma parse_selector_keeps: "keeps ts (\<lambda>x. True) (parse_selector n)"
  apply (rule keeps_cong [OF parse_selector_def])
  apply (intro keeps_if keeps_bind_consume keeps_bind_first_char keeps_error keeps_ret
      keeps_bind_split [OF parse_selector_loop_keeps] TrueI)
  done

lemma keeps_prod:
  assumes "\<And>a b. x = (a, b) \<Longrightarrow> keeps ts R (g a b)"
  shows "keeps ts R (case x of (a, b) \<Rightarrow> g a b)"
  using assms by (cases x) simp

lemma keeps_case_option:
  assumes "keeps ts Q n" "\<And>y. v = Some y \<Longrightarrow> keeps ts Q (s y)"
  shows "keeps ts Q (\<lambda>p. case v of None \<Rightarrow> n p | Some y \<Rightarrow> s y p)"
  using assms by (cases v) simp_all

subsection \<open>The bodies of the recursive family\<close>

lemma good_ident:
  "good_tokens ts \<Longrightarrow> t \<in> set ts \<Longrightarrow> tok_type t = IDENT
   \<Longrightarrow> count_list (tok_value t) (CHR '':'') = 0"
  by (auto simp: good_tokens_def intro: count_list_absent)

lemma parse_expr_base_body_ok:
  assumes E: "keeps ts ok_e ep" and B: "keeps ts ok_b bp"
  shows "keeps ts ok_e (parse_expr_base_body ep bp)"
  apply (rule keeps_cong [OF parse_expr_base_body_def])
  apply (intro keeps_case_token keeps_if keeps_bind_consume keeps_bind_first_char
      keeps_bind_split [OF E] keeps_bind_split [OF B] keeps_error keeps_ret)
  apply simp_all
  done

lemma parse_expr_body_ok:
  assumes E: "keeps ts ok_e bp" and T: "\<And>base. ok_e base \<Longrightarrow> keeps ts ok_e (tp base)"
  shows "keeps ts ok_e (parse_expr_body bp tp)"
  apply (rule keeps_cong [OF parse_expr_body_def])
  apply (rule keeps_bind_split [OF E])
  apply (erule T)
  done

lemma parse_expr_tail_body_ok:
  assumes S: "\<And>base. ok_e base \<Longrightarrow> keeps ts ok_e (sp base)"
    and N: "\<And>base. ok_e base \<Longrightarrow> keeps ts ok_e (next_turn base)"
    and good: "good_tokens ts" and base: "ok_e base"
  shows "keeps ts ok_e (parse_expr_tail_body sp next_turn base)"
  apply (rule keeps_cong [OF parse_expr_tail_body_def])
  apply (intro keeps_if keeps_bind_consume keeps_bind_split [OF S [OF base]] N keeps_ret)
  apply (simp_all add: base good_ident [OF good])
  done

lemma send_tail_first_ok:
  assumes E: "keeps ts ok_e ep" and good: "good_tokens ts"
  shows "keeps ts loop_inv (send_tail_first ep t)"
  apply (rule keeps_cong [OF send_tail_first_def])
  apply (intro keeps_if keeps_bind_consume keeps_bind_split [OF E] keeps_error keeps_ret)
  apply (simp_all add: loop_inv_def good_ident [OF good])
  done

lemma send_tail_loop_body_ok:
  assumes E: "keeps ts ok_e ep"
    and N: "\<And>parts args. loop_inv (parts, args) \<Longrightarrow> keeps ts loop_inv (next_turn parts args)"
    and good: "good_tokens ts" and inv: "loop_inv (parts, args)"
  shows "keeps ts loop_inv (send_tail_loop_body ep next_turn parts args)"
  apply (rule keeps_cong [OF send_tail_loop_body_def])
  apply (intro keeps_if keeps_bind_consume keeps_bind_split [OF E] N keeps_error keeps_ret)
  using inv apply (simp_all add: loop_inv_def good_ident [OF good])
  done

lemma parse_send_tail_body_ok:
  assumes E: "keeps ts ok_e ep"
    and L: "\<And>parts args. loop_inv (parts, args) \<Longrightarrow> keeps ts loop_inv (loop parts args)"
    and good: "good_tokens ts" and base: "ok_e base"
  shows "keeps ts ok_e (parse_send_tail_body ep loop base)"
  apply (rule keeps_cong [OF parse_send_tail_body_def])
  apply (rule keeps_case_token)
   apply (rule keeps_error)
  apply (rule keeps_bind_split [OF send_tail_first_ok [OF E good]])
  apply (rule keeps_prod)
  apply (rule keeps_bind_split [OF L])
   apply simp
  apply (rule keeps_prod)
  apply (rule keeps_case_option)
   apply (rule keeps_error)
  apply (rule keeps_ret)
  using base apply (simp add: loop_inv_def)
  done

lemma parse_assignment_body_ok:
  assumes E: "keeps ts ok_e ep"
  shows "keeps ts (\<lambda>a. ok_as [a]) (parse_assignment_body ep order)"
  apply (rule keeps_cong [OF parse_assignment_body_def])
  apply (intro keeps_if keeps_bind_consume keeps_bind_split [OF E] keeps_error keeps_ret)
  apply simp
  done

lemma parse_assignments_body_ok:
  assumes A: "\<And>order. keeps ts (\<lambda>a. ok_as [a]) (ap order)"
    and N: "\<And>order assigns. ok_as assigns \<Longrightarrow> keeps ts ok_as (next_turn order assigns)"
    and as: "ok_as assigns"
  shows "keeps ts ok_as (parse_assignments_body ap next_turn order assigns)"
  apply (rule keeps_cong [OF parse_assignments_body_def])
  apply (intro keeps_if keeps_bind_split [OF A] N keeps_ret)
  using as apply simp_all
  done

lemma parse_block_body_ok:
  assumes AS: "\<And>order assigns. ok_as assigns \<Longrightarrow> keeps ts ok_as (asp order assigns)"
  shows "keeps ts ok_b (parse_block_body n asp)"
  apply (rule keeps_cong [OF parse_block_body_def])
  apply (intro keeps_bind_consume keeps_bind_split [OF parse_block_header_keeps]
      keeps_bind_split [OF AS] keeps_ret)
  apply simp_all
  done

lemma keeps_None: "(\<And>p. f p = None) \<Longrightarrow> keeps ts Q f"
  by (rule keepsI) simp

lemma family_ok:
  assumes good: "good_tokens ts"
  shows "keeps ts ok_b (parse_block n)
    \<and> (\<forall>order assigns. ok_as assigns \<longrightarrow> keeps ts ok_as (parse_assignments n order assigns))
    \<and> (\<forall>order. keeps ts (\<lambda>a. ok_as [a]) (parse_assignment n order))
    \<and> keeps ts ok_e (parse_expr n)
    \<and> keeps ts ok_e (parse_expr_base n)
    \<and> (\<forall>base. ok_e base \<longrightarrow> keeps ts ok_e (parse_expr_tail n base))
    \<and> (\<forall>base. ok_e base \<longrightarrow> keeps ts ok_e (parse_send_tail n base))
    \<and> (\<forall>parts args. loop_inv (parts, args) \<longrightarrow> keeps ts loop_inv (send_tail_loop n parts args))"
proof (induction n)
  case 0
  show ?case by (intro conjI allI impI keeps_None) simp_all
next
  case (Suc n)
  then have B: "keeps ts ok_b (parse_block n)"
    and AS: "\<And>order assigns. ok_as assigns \<Longrightarrow> keeps ts ok_as (parse_assignments n order assigns)"
    and A: "\<And>order. keeps ts (\<lambda>a. ok_as [a]) (parse_assignment n order)"
    and E: "keeps ts ok_e (parse_expr n)"
    and EB: "keeps ts ok_e (parse_expr_base n)"
    and T: "\<And>base. ok_e base \<Longrightarrow> keeps ts ok_e (parse_expr_tail n base)"
    and S: "\<And>base. ok_e base \<Longrightarrow> keeps ts ok_e (parse_send_tail n base)"
    and L: "\<And>parts args. loop_inv (parts, args) \<Longrightarrow> keeps ts loop_inv (send_tail_loop n parts args)"
    by blast+
  have "keeps ts ok_b (parse_block (Suc n))"
    by (rule keeps_cong [OF parse_block.simps(2)]) (rule parse_block_body_ok [OF AS])
  moreover have "keeps ts ok_as (parse_assignments (Suc n) order assigns)"
    if "ok_as assigns" for order assigns
    by (rule keeps_cong [OF parse_assignments.simps(2)])
       (rule parse_assignments_body_ok [OF A AS that])
  moreover have "keeps ts (\<lambda>a. ok_as [a]) (parse_assignment (Suc n) order)" for order
    by (rule keeps_cong [OF parse_assignment.simps(2)]) (rule parse_assignment_body_ok [OF E])
  moreover have "keeps ts ok_e (parse_expr (Suc n))"
    by (rule keeps_cong [OF parse_expr.simps(2)]) (rule parse_expr_body_ok [OF EB T])
  moreover have "keeps ts ok_e (parse_expr_base (Suc n))"
    by (rule keeps_cong [OF parse_expr_base.simps(2)]) (rule parse_expr_base_body_ok [OF E B])
  moreover have "keeps ts ok_e (parse_expr_tail (Suc n) base)" if "ok_e base" for base
    by (rule keeps_cong [OF parse_expr_tail.simps(2)])
       (rule parse_expr_tail_body_ok [OF S T good that])
  moreover have "keeps ts ok_e (parse_send_tail (Suc n) base)" if "ok_e base" for base
    by (rule keeps_cong [OF parse_send_tail.simps(2)])
       (rule parse_send_tail_body_ok [OF EB L good that])
  moreover have "keeps ts loop_inv (send_tail_loop (Suc n) parts args)"
    if "loop_inv (parts, args)" for parts args
    by (rule keeps_cong [OF send_tail_loop.simps(2)])
       (rule send_tail_loop_body_ok [OF EB L good that])
  ultimately show ?case by blast
qed

subsection \<open>Methods, classes, programs\<close>

lemma parse_method_ok:
  assumes good: "good_tokens ts"
  shows "keeps ts (\<lambda>m. ok_ms [m]) (parse_method n)"
  apply (rule keeps_cong [OF parse_method_def])
  apply (intro keeps_bind_split [OF parse_selector_keeps]
      keeps_bind_split [OF family_ok [OF good, THEN conjunct1]] keeps_ret)
  apply (simp add: ok_ms_def)
  done

lemma parse_methods_ok:
  assumes good: "good_tokens ts"
  shows "ok_ms ms \<Longrightarrow> keeps ts ok_ms (parse_methods n ms)"
proof (induction n arbitrary: ms)
  case 0
  show ?case by (rule keeps_None) simp
next
  case (Suc n)
  have step: "keeps ts ok_ms (parse_methods n (ms @ [m]))" if "ok_ms [m]" for m
    using that Suc.prems by (intro Suc.IH) (simp add: ok_ms_def)
  show ?case
    apply (rule keeps_cong [OF parse_methods.simps(2)])
    apply (intro keeps_if keeps_bind_split [OF parse_method_ok [OF good]] keeps_ret step)
     apply (simp_all add: Suc.prems)
    done
qed

lemma valid_class_identifier_keeps: "keeps ts (\<lambda>u. True) (valid_class_identifier v)"
  apply (rule keeps_cong [OF valid_class_identifier_def])
  apply (intro keeps_bind_first_char keeps_if keeps_error keeps_ret TrueI)
  done

lemma parse_class_ok:
  assumes good: "good_tokens ts"
  shows "keeps ts (\<lambda>c. ok_cs [c]) (parse_class n)"
proof -
  have empty: "ok_ms []" by (simp add: ok_ms_def)
  show ?thesis
    apply (rule keeps_cong [OF parse_class_def])
    apply (intro keeps_if keeps_bind_consume keeps_bind_split [OF valid_class_identifier_keeps]
        keeps_bind_split [OF parse_methods_ok [OF good empty]] keeps_error keeps_ret)
    apply (simp add: ok_cs_def ok_ms_def)
    done
qed

lemma parse_classes_ok:
  assumes good: "good_tokens ts"
  shows "ok_cs cs \<Longrightarrow> keeps ts ok_cs (parse_classes n cs)"
proof (induction n arbitrary: cs)
  case 0
  show ?case by (rule keeps_None) simp
next
  case (Suc n)
  have step: "keeps ts ok_cs (parse_classes n (cs @ [c]))" if "ok_cs [c]" for c
    using that Suc.prems by (intro Suc.IH) (simp add: ok_cs_def)
  show ?case
    apply (rule keeps_cong [OF parse_classes.simps(2)])
    apply (intro keeps_if keeps_bind_split [OF parse_class_ok [OF good]] keeps_ret step)
     apply (simp_all add: Suc.prems)
    done
qed

lemma parse_ok:
  assumes good: "good_tokens tokens" and parsed: "parse tokens = Some (Inr ast)"
  shows "sends_ok (sends_program ast)"
proof -
  let ?ts = "filter (\<lambda>t. tok_type t \<noteq> COMMENT) tokens"
  let ?p = "\<lparr>p_tokens = ?ts, p_pos = 0, p_last_token_end = 0\<rparr>"
  from good have good': "good_tokens ?ts" by (simp add: good_tokens_def)
  from parsed obtain classes p' where
    run: "parse_classes (parse_fuel ?ts) [] ?p = Some (Inr (classes, p'))"
    and ast: "program_classes ast = classes"
    by (auto simp: parse_def Let_def split: option.splits sum.splits)
  have "ok_cs []" by (simp add: ok_cs_def)
  from keepsD [OF parse_classes_ok [OF good' this] _ run] have "ok_cs classes" by simp
  with ast show ?thesis by (simp add: ok_cs_def sends_program_def)
qed

subsection \<open>Identifiers have no colon\<close>

lemma first_match_ident:
  assumes "first_match token_specification s = Some (IDENT, n)"
  shows "CHR '':'' \<notin> set (take n s)"
proof -
  from assms have m: "match_ident s = Some n"
    by (auto simp: token_specification_def split: option.splits)
  then obtain c cs where s: "s = c # cs" and c: "ident_start c"
    and n: "n = Suc (length (takeWhile ident_char cs))"
    by (auto simp: match_ident_def split: list.splits if_splits)
  have nc: "\<not> ident_char (CHR '':'')"
    by (simp add: ident_char_def ident_start_def ascii_lower_def ascii_upper_def isdigit_def)
  have "take n s = c # takeWhile ident_char cs"
    using s n by (simp add: takeWhile_eq_take [symmetric])
  moreover have "\<forall>x \<in> set (takeWhile ident_char cs). ident_char x"
    by (auto dest: set_takeWhileD)
  moreover from c have "ident_char c" by (simp add: ident_char_def)
  ultimately show ?thesis using nc by auto
qed

lemma master_pattern_match_ident:
  "master_pattern_match code pos = Some (IDENT, e)
   \<Longrightarrow> CHR '':'' \<notin> set (take (e - pos) (drop pos code))"
  by (auto simp: master_pattern_match_def dest!: first_match_ident)

lemma tokenize_loop_good:
  "tokenize_loop code pos acc = Inr tokens \<Longrightarrow> good_tokens acc \<Longrightarrow> good_tokens tokens"
proof (induction code pos acc rule: tokenize_loop.induct)
  case (1 code pos acc)
  show ?case
  proof (cases "pos < length code")
    case False
    with "1.prems" show ?thesis by (simp add: tokenize_loop.simps [of code pos acc])
  next
    case True
    from "1.prems"(1) have unf: "(case master_pattern_match code pos of
           None \<Rightarrow> Inl ERR_LEXICAL
         | Some (ty, e) \<Rightarrow>
             (if ty = WHITESPACE then tokenize_loop code e acc
              else if ty = COMMENT then
                tokenize_loop code e (acc @ [Token COMMENT (take (e - pos) (drop pos code)) pos])
              else if ty = STRING then
                (case process_string_literal (take (e - pos) (drop pos code)) of
                   Inl err \<Rightarrow> Inl err
                 | Inr processed_value \<Rightarrow>
                     tokenize_loop code e (acc @ [Token STRING processed_value pos]))
              else if ty = OTHER then Inl ERR_LEXICAL
              else tokenize_loop code e (acc @ [Token ty (take (e - pos) (drop pos code)) pos])))
        = Inr tokens"
      using True by (simp add: tokenize_loop.simps [of code pos acc])
    then obtain ty e where m: "master_pattern_match code pos = Some (ty, e)"
      by (cases "master_pattern_match code pos") auto
    have new: "good_tokens (acc @ [Token ty (take (e - pos) (drop pos code)) pos])"
      using "1.prems"(2) m
      by (auto simp: good_tokens_def Token_def dest: master_pattern_match_ident)
    have other: "good_tokens (acc @ [Token ty' v pos])" if "ty' \<noteq> IDENT" for ty' v
      using "1.prems"(2) that by (auto simp: good_tokens_def Token_def)
    show ?thesis
      using "1.IH" [OF True m] unf m "1.prems"(2) new other
      by (auto split: if_splits sum.splits)
  qed
qed

lemma parse_source_ok:
  assumes "parse_source code = Some (Inr ast)"
  shows "sends_ok (sends_program ast)"
proof -
  from assms obtain tokens where t: "tokenize code = Inr tokens"
    and p: "parse tokens = Some (Inr ast)"
    by (auto simp: parse_source_def split: sum.splits)
  from t have "good_tokens tokens"
    unfolding tokenize_def by (rule tokenize_loop_good) (simp add: good_tokens_def)
  then show ?thesis using p by (rule parse_ok)
qed

text \<open>
  Claim C8. For every \<^verbatim>\<open>Send\<close> node in a tree the parser returns, whether or not the
  semantic analysis accepts the program, the number of arguments equals the number of
  colons in the selector.
\<close>

theorem selector_arity:
  assumes "parse_source code = Some (Inr ast)"
    and "Send selector target args pos \<in> set (sends_program ast)"
  shows "length args = count_list selector (CHR '':'')"
proof -
  from assms(1) have "sends_ok (sends_program ast)" by (rule parse_source_ok)
  with assms(2) have "send_ok (Send selector target args pos)"
    by (auto simp: sends_ok_def list_all_iff)
  then show ?thesis by simp
qed

theorem selector_arity_witness:
  "parse_source ''class Main:Object{run[|x:=1 plus:2.]}'' =
     Some (Inr \<lparr>program_classes =
        [\<lparr>class_name = ''Main'', class_parent = ''Object'',
          class_methods =
            [\<lparr>method_selector = ''run'',
              method_block =
                Block []
                  [Assignment ''x'' 23
                     (Send ''plus:'' (Literal ''Integer'' ''1'' 26)
                        [Literal ''Integer'' ''2'' 33] 26) 1]\<rparr>]\<rparr>],
        program_description = None\<rparr>)
   \<and> Send ''plus:'' (Literal ''Integer'' ''1'' 26) [Literal ''Integer'' ''2'' 33] 26
       \<in> set (sends_program \<lparr>program_classes =
        [\<lparr>class_name = ''Main'', class_parent = ''Object'',
          class_methods =
            [\<lparr>method_selector = ''run'',
              method_block =
                Block []
                  [Assignment ''x'' 23
                     (Send ''plus:'' (Literal ''Integer'' ''1'' 26)
                        [Literal ''Integer'' ''2'' 33] 26) 1]\<rparr>]\<rparr>],
        program_description = None\<rparr>)
   \<and> length [Literal ''Integer'' ''2'' 33] = count_list ''plus:'' (CHR '':'')"
proof -
  have parsed: "parse_source ''class Main:Object{run[|x:=1 plus:2.]}'' =
     Some (Inr \<lparr>program_classes =
        [\<lparr>class_name = ''Main'', class_parent = ''Object'',
          class_methods =
            [\<lparr>method_selector = ''run'',
              method_block =
                Block []
                  [Assignment ''x'' 23
                     (Send ''plus:'' (Literal ''Integer'' ''1'' 26)
                        [Literal ''Integer'' ''2'' 33] 26) 1]\<rparr>]\<rparr>],
        program_description = None\<rparr>)"
    by code_simp
  have node: "Send ''plus:'' (Literal ''Integer'' ''1'' 26) [Literal ''Integer'' ''2'' 33] 26
       \<in> set (sends_program \<lparr>program_classes =
        [\<lparr>class_name = ''Main'', class_parent = ''Object'',
          class_methods =
            [\<lparr>method_selector = ''run'',
              method_block =
                Block []
                  [Assignment ''x'' 23
                     (Send ''plus:'' (Literal ''Integer'' ''1'' 26)
                        [Literal ''Integer'' ''2'' 33] 26) 1]\<rparr>]\<rparr>],
        program_description = None\<rparr>)"
    by (simp add: sends_program_def)
  from selector_arity [OF parsed node] parsed node show ?thesis by simp
qed

text \<open>
  Claim C4, as amended. For every \<^verbatim>\<open>Send\<close> node with arguments (a keyword send) in a tree
  the parser returns, the position stored on the node is the position of its target.
  A \<^verbatim>\<open>Send\<close> without arguments (a unary send) stores the position of its selector: when
  the current token is an identifier that no colon follows, \<^verbatim>\<open>parse_expr_tail\<close> consumes
  it and goes on with a \<^verbatim>\<open>Send\<close> that has the value and the position of that token.
\<close>

theorem send_positions:
  "(parse_source code = Some (Inr ast)
      \<and> Send selector target args pos \<in> set (sends_program ast) \<and> args \<noteq> []
      \<longrightarrow> pos_of target = Some pos)
   \<and> (current_token p = Some t \<and> tok_type t = IDENT \<and> \<not> next_is_colon p
      \<longrightarrow> parse_expr_tail (Suc n) base p =
          parse_expr_tail n (Send (tok_value t) base [] (tok_pos t))
            (p\<lparr>p_pos := p_pos p + 1, p_last_token_end := tok_pos t + length (tok_value t)\<rparr>))"
proof (intro conjI impI)
  assume h: "parse_source code = Some (Inr ast)
      \<and> Send selector target args pos \<in> set (sends_program ast) \<and> args \<noteq> []"
  then have "sends_ok (sends_program ast)" by (auto dest: parse_source_ok)
  with h have "send_ok (Send selector target args pos)"
    by (auto simp: sends_ok_def list_all_iff)
  with h show "pos_of target = Some pos" by simp
next
  assume "current_token p = Some t \<and> tok_type t = IDENT \<and> \<not> next_is_colon p"
  then show "parse_expr_tail (Suc n) base p =
          parse_expr_tail n (Send (tok_value t) base [] (tok_pos t))
            (p\<lparr>p_pos := p_pos p + 1, p_last_token_end := tok_pos t + length (tok_value t)\<rparr>)"
    by (simp add: parse_expr_tail_body_def current_type_def consume_def ret_def)
qed

theorem send_positions_witness:
  "parse_source ''class Main:Object{run[|x:=1 plus:2.]}'' =
     Some (Inr \<lparr>program_classes =
        [\<lparr>class_name = ''Main'', class_parent = ''Object'',
          class_methods =
            [\<lparr>method_selector = ''run'',
              method_block =
                Block []
                  [Assignment ''x'' 23
                     (Send ''plus:'' (Literal ''Integer'' ''1'' 26)
                        [Literal ''Integer'' ''2'' 33] 26) 1]\<rparr>]\<rparr>],
        program_description = None\<rparr>)
   \<and> Send ''plus:'' (Literal ''Integer'' ''1'' 26) [Literal ''Integer'' ''2'' 33] 26
       \<in> set (sends_program \<lparr>program_classes =
        [\<lparr>class_name = ''Main'', class_parent = ''Object'',
          class_methods =
            [\<lparr>method_selector = ''run'',
              method_block =
                Block []
                  [Assignment ''x'' 23
                     (Send ''plus:'' (Literal ''Integer'' ''1'' 26)
                        [Literal ''Integer'' ''2'' 33] 26) 1]\<rparr>]\<rparr>],
        program_description = None\<rparr>)
   \<and> [Literal ''Integer'' ''2'' 33] \<noteq> []
   \<and> pos_of (Literal ''Integer'' ''1'' 26) = Some 26
   \<and> current_token \<lparr>p_tokens = [Token NUMBER ''1'' 0, Token IDENT ''foo'' 2, Token DOT ''.'' 5],
                     p_pos = 1, p_last_token_end = 1\<rparr> = Some (Token IDENT ''foo'' 2)
   \<and> tok_type (Token IDENT ''foo'' 2) = IDENT
   \<and> \<not> next_is_colon \<lparr>p_tokens = [Token NUMBER ''1'' 0, Token IDENT ''foo'' 2, Token DOT ''.'' 5],
                        p_pos = 1, p_last_token_end = 1\<rparr>
   \<and> parse_expr_tail (Suc (Suc 0)) (Literal ''Integer'' ''1'' 0)
        \<lparr>p_tokens = [Token NUMBER ''1'' 0, Token IDENT ''foo'' 2, Token DOT ''.'' 5],
         p_pos = 1, p_last_token_end = 1\<rparr>
      = parse_expr_tail (Suc 0)
          (Send (tok_value (Token IDENT ''foo'' 2)) (Literal ''Integer'' ''1'' 0) []
             (tok_pos (Token IDENT ''foo'' 2)))
          (\<lparr>p_tokens = [Token NUMBER ''1'' 0, Token IDENT ''foo'' 2, Token DOT ''.'' 5],
            p_pos = 1, p_last_token_end = 1\<rparr>
            \<lparr>p_pos := p_pos \<lparr>p_tokens = [Token NUMBER ''1'' 0, Token IDENT ''foo'' 2,
                                         Token DOT ''.'' 5],
                             p_pos = 1, p_last_token_end = 1\<rparr> + 1,
             p_last_token_end := tok_pos (Token IDENT ''foo'' 2)
                                 + length (tok_value (Token IDENT ''foo'' 2))\<rparr>)"
proof -
  have parsed: "parse_source ''class Main:Object{run[|x:=1 plus:2.]}'' =
     Some (Inr \<lparr>program_classes =
        [\<lparr>class_name = ''Main'', class_parent = ''Object'',
          class_methods =
            [\<lparr>method_selector = ''run'',
              method_block =
                Block []
                  [Assignment ''x'' 23
                     (Send ''plus:'' (Literal ''Integer'' ''1'' 26)
                        [Literal ''Integer'' ''2'' 33] 26) 1]\<rparr>]\<rparr>],
        program_description = None\<rparr>)"
    by code_simp
  have node: "Send ''plus:'' (Literal ''Integer'' ''1'' 26) [Literal ''Integer'' ''2'' 33] 26
       \<in> set (sends_program \<lparr>program_classes =
        [\<lparr>class_name = ''Main'', class_parent = ''Object'',
          class_methods =
            [\<lparr>method_selector = ''run'',
              method_block =
                Block []
                  [Assignment ''x'' 23
                     (Send ''plus:'' (Literal ''Integer'' ''1'' 26)
                        [Literal ''Integer'' ''2'' 33] 26) 1]\<rparr>]\<rparr>],
        program_description = None\<rparr>)"
    by (simp add: sends_program_def)
  have cur: "current_token \<lparr>p_tokens = [Token NUMBER ''1'' 0, Token IDENT ''foo'' 2,
                                        Token DOT ''.'' 5],
                     p_pos = 1, p_last_token_end = 1\<rparr> = Some (Token IDENT ''foo'' 2)"
    by (simp add: current_token_def)
  have ident: "tok_type (Token IDENT ''foo'' 2) = IDENT"
    by (simp add: Token_def)
  have unary: "\<not> next_is_colon \<lparr>p_tokens = [Token NUMBER ''1'' 0, Token IDENT ''foo'' 2,
                                            Token DOT ''.'' 5],
                        p_pos = 1, p_last_token_end = 1\<rparr>"
    by (simp add: next_is_colon_def Token_def)
  from send_positions
    [where code = "''class Main:Object{run[|x:=1 plus:2.]}''"
       and selector = "''plus:''" and target = "Literal ''Integer'' ''1'' 26"
       and args = "[Literal ''Integer'' ''2'' 33]" and pos = 26
       and p = "\<lparr>p_tokens = [Token NUMBER ''1'' 0, Token IDENT ''foo'' 2, Token DOT ''.'' 5],
                 p_pos = 1, p_last_token_end = 1\<rparr>"
       and t = "Token IDENT ''foo'' 2" and n = "Suc 0" and base = "Literal ''Integer'' ''1'' 0"]
    parsed node cur ident unary
  show ?thesis by simp
qed

text \<open>
  Claim C4 as the specification states it, unary sends included, does not hold: in
  \<^verbatim>\<open>x:=1 foo.\<close> the literal \<^verbatim>\<open>1\<close> is at position 26 and the \<^verbatim>\<open>Send\<close> of \<^verbatim>\<open>foo\<close> to it
  stores 28, the position of \<^verbatim>\<open>foo\<close>.
\<close>

theorem unary_send_position_counterexample:
  "parse_source ''class Main:Object{run[|x:=1 foo.]}'' =
     Some (Inr \<lparr>program_classes =
        [\<lparr>class_name = ''Main'', class_parent = ''Object'',
          class_methods =
            [\<lparr>method_selector = ''run'',
              method_block =
                Block []
                  [Assignment ''x'' 23
                     (Send ''foo'' (Literal ''Integer'' ''1'' 26) [] 28) 1]\<rparr>]\<rparr>],
        program_description = None\<rparr>)
   \<and> pos_of (Literal ''Integer'' ''1'' 26) \<noteq> Some 28"
  by code_simp

end
